theory Spec2Isabelle
  imports Main "HOL-Library.Word"
begin

section \<open>Data model\<close>

text \<open>
  A JavaScript error value, thrown or reported as \<open>result.error\<close>. \<open>is_Error\<close> says
  whether \<open>error instanceof Error\<close> holds: \<open>new Error(...)\<close>, a \<open>TypeError\<close>, a filesystem
  error and the storage client's errors are instances, while a backend may also report a plain
  object. The text of \<open>error.stack\<close> is produced by the engine and is not modelled.
  A thrown value has type \<open>js_error option\<close>, where \<open>None\<close> is \<open>null\<close>.
\<close>

datatype js_error = JsError (is_Error: bool) (err_name: string) (err_message: string)

definition new_Error :: "string \<Rightarrow> js_error" where
  "new_Error msg = JsError True ''Error'' msg"

type_synonym byte = "8 word"

text \<open>
  Values stored under \<open>metadata\<close>. \<open>JTimestamp t\<close> stands for the string
  \<open>new Date(t).toISOString()\<close>, \<open>JStack\<close> for the text of \<open>error.stack\<close>.
\<close>

datatype json = JString string | JNumber nat | JTimestamp nat | JStack
  | JObject "(string \<times> json) list"

type_synonym metadata_map = "string \<rightharpoonup> json"

text \<open>
  \<open>interface GeneratedImageRecord\<close>. The fields \<open>id\<close> and \<open>prompt\<close> are called \<open>id_col\<close> and \<open>prompt_col\<close>; an absent
  \<open>metadata\<close> is the empty map, which is what the object spread makes of it.
\<close>

record GeneratedImageRecord =
  id_col :: string
  created_at :: string
  storage_path :: string
  original_filepath :: string
  prompt_col :: string
  status :: string
  error_message :: "string option"
  metadata :: metadata_map

text \<open>The object handed to \<open>insert([...])\<close>, and the object handed to \<open>update(...)\<close>, where
  a column that the object does not mention is \<open>None\<close>.\<close>

record new_row =
  n_original_filepath :: string
  n_prompt :: string
  n_status :: string
  n_storage_path :: string
  n_metadata :: metadata_map

record patch =
  p_storage_path :: "string option"
  p_status :: "string option"
  p_error_message :: "string option"
  p_metadata :: "metadata_map option"

text \<open>
  The network calls of the module:
  \<^item> \<open>Insert table row\<close> is \<open>supabase.from(table).insert([row]).select().single()\<close>;
  \<^item> \<open>Update table p i sel\<close> is \<open>supabase.from(table).update(p).eq('id', i)\<close>, followed by
    \<open>.select().single()\<close> when \<open>sel\<close> holds;
  \<^item> \<open>Upload bucket path body contentType upsert\<close> is
    \<open>supabase.storage.from(bucket).upload(path, body, {contentType, upsert})\<close>.
  A reply is the awaited \<open>result\<close>: \<open>Failure e\<close> when \<open>result.error\<close> is set (or the call
  rejects with \<open>e\<close>), otherwise \<open>Data d\<close> with \<open>result.data\<close> (\<open>None\<close> is \<open>null\<close>; the data
  of an upload is not a row and is never read).
\<close>

datatype request =
    Insert string new_row
  | Update string patch string bool
  | Upload string string "byte list" string bool

datatype reply = Failure js_error | Data "GeneratedImageRecord option"

section \<open>The world\<close>

datatype fs_call = ExistsSync string | Stat string | Open string | Read string | Close string
  | ReadFile string

text \<open>
  The state a run acts on: the state of the hosted backend (of any type \<open>'b\<close>), the network
  calls issued so far and the filesystem calls issued so far (oldest first), the clock read by
  \<open>Date.now()\<close> in milliseconds, and the local variable \<open>recordId\<close> of
  \<open>uploadGeneratedImage\<close>, which its \<open>try\<close> block assigns and its \<open>catch\<close> block reads.
\<close>

record 'b world =
  backend :: 'b
  requests :: "request list"
  fs_calls :: "fs_call list"
  now :: nat
  recordId :: "string option"

text \<open>
  An asynchronous computation: it ends by throwing (\<open>Inl\<close>) or by returning (\<open>Inr\<close>), in a new
  world. \<open>and_then\<close> is \<open>await\<close> followed by the rest of the block.
\<close>

type_synonym ('a, 'b) prog = "'b world \<Rightarrow> (js_error option + 'a) \<times> 'b world"

definition returns :: "'a \<Rightarrow> ('a, 'b) prog" where
  "returns v w = (Inr v, w)"

definition throws :: "js_error option \<Rightarrow> ('a, 'b) prog" where
  "throws e w = (Inl e, w)"

definition and_then :: "('a, 'b) prog \<Rightarrow> ('a \<Rightarrow> ('c, 'b) prog) \<Rightarrow> ('c, 'b) prog" where
  "and_then m f w = (case m w of (Inl e, w') \<Rightarrow> (Inl e, w') | (Inr v, w') \<Rightarrow> f v w')"

definition try_catch :: "('a, 'b) prog \<Rightarrow> (js_error option \<Rightarrow> ('a, 'b) prog) \<Rightarrow> ('a, 'b) prog" where
  "try_catch body handler w =
     (case body w of (Inl e, w') \<Rightarrow> handler e w' | (Inr v, w') \<Rightarrow> (Inr v, w'))"

text \<open>\<open>await new Promise(resolve => setTimeout(resolve, delay))\<close>: the clock moves on by the
  delay.\<close>

definition setTimeout :: "nat \<Rightarrow> 'b world \<Rightarrow> 'b world" where
  "setTimeout delay w = w\<lparr>now := now w + delay\<rparr>"

subsection \<open>The filesystem\<close>

text \<open>
  What the filesystem answers for one existing path, call by call: \<open>fs.promises.stat\<close> throws
  or gives \<open>stats.size\<close>; \<open>fs.promises.open(filepath, 'r')\<close> throws or opens;
  \<open>fd.read(buffer, 0, 4, 0)\<close> throws or delivers some bytes; \<open>fd.close()\<close> throws or closes;
  \<open>fs.promises.readFile\<close> throws or gives the content. A path for which \<open>fs.existsSync\<close>
  is false has no entry. Each call is made at most once in a run, so independent answers cover
  a file that changes between the calls.
\<close>

record fs_file =
  stat_size :: "js_error + nat"
  open_r :: "js_error option"
  read_bytes :: "js_error + byte list"
  close_fd :: "js_error option"
  read_file :: "js_error + byte list"

type_synonym filesystem = "string \<Rightarrow> fs_file option"

text \<open>A readable regular file with the given content.\<close>

definition regular_file :: "byte list \<Rightarrow> fs_file" where
  "regular_file content =
     \<lparr>stat_size = Inr (length content), open_r = None, read_bytes = Inr (take 4 content),
      close_fd = None, read_file = Inr content\<rparr>"

definition ENOENT :: js_error where
  "ENOENT = JsError True ''Error'' ''ENOENT: no such file or directory''"

definition fs_log :: "fs_call \<Rightarrow> 'b world \<Rightarrow> 'b world" where
  "fs_log c w = w\<lparr>fs_calls := fs_calls w @ [c]\<rparr>"

definition existsSync :: "filesystem \<Rightarrow> string \<Rightarrow> (bool, 'b) prog" where
  "existsSync fs filepath w = (Inr (fs filepath \<noteq> None), fs_log (ExistsSync filepath) w)"

definition stat :: "filesystem \<Rightarrow> string \<Rightarrow> (nat, 'b) prog" where
  "stat fs filepath w =
     (case fs filepath of
        None \<Rightarrow> Inl (Some ENOENT)
      | Some f \<Rightarrow> (case stat_size f of Inl e \<Rightarrow> Inl (Some e) | Inr n \<Rightarrow> Inr n),
      fs_log (Stat filepath) w)"

definition fs_open :: "filesystem \<Rightarrow> string \<Rightarrow> (unit, 'b) prog" where
  "fs_open fs filepath w =
     (case fs filepath of
        None \<Rightarrow> Inl (Some ENOENT)
      | Some f \<Rightarrow> (case open_r f of Some e \<Rightarrow> Inl (Some e) | None \<Rightarrow> Inr ()),
      fs_log (Open filepath) w)"

text \<open>\<open>Buffer.alloc(4)\<close> is zero-filled and \<open>fd.read(buffer, 0, 4, 0)\<close> overwrites its first
  bytes with at most four bytes of the file.\<close>

definition fd_read :: "filesystem \<Rightarrow> string \<Rightarrow> (byte list, 'b) prog" where
  "fd_read fs filepath w =
     (case fs filepath of
        None \<Rightarrow> Inl (Some ENOENT)
      | Some f \<Rightarrow> (case read_bytes f of
                    Inl e \<Rightarrow> Inl (Some e)
                  | Inr bs \<Rightarrow> Inr (take 4 (bs @ replicate 4 0))),
      fs_log (Read filepath) w)"

definition fd_close :: "filesystem \<Rightarrow> string \<Rightarrow> (unit, 'b) prog" where
  "fd_close fs filepath w =
     (case fs filepath of
        None \<Rightarrow> Inl (Some ENOENT)
      | Some f \<Rightarrow> (case close_fd f of Some e \<Rightarrow> Inl (Some e) | None \<Rightarrow> Inr ()),
      fs_log (Close filepath) w)"

definition readFile :: "filesystem \<Rightarrow> string \<Rightarrow> (byte list, 'b) prog" where
  "readFile fs filepath w =
     (case fs filepath of
        None \<Rightarrow> Inl (Some ENOENT)
      | Some f \<Rightarrow> (case read_file f of Inl e \<Rightarrow> Inl (Some e) | Inr bs \<Rightarrow> Inr bs),
      fs_log (ReadFile filepath) w)"

subsection \<open>Strings and buffers\<close>

text \<open>
  A string is a list of 8-bit characters. \<open>split_on c s\<close> is \<open>s.split(c)\<close> for a separator of
  one character (never empty), \<open>pop\<close> is \<open>Array.prototype.pop\<close> (\<open>undefined\<close> is \<open>None\<close>),
  \<open>toLowerCase\<close> lowers the letters A to Z, \<open>toString_hex\<close> is \<open>buffer.toString('hex')\<close>.
\<close>

fun split_on :: "char \<Rightarrow> string \<Rightarrow> string list" where
  "split_on c [] = [[]]"
| "split_on c (x # xs) =
     (if x = c then [] # split_on c xs
      else (case split_on c xs of [] \<Rightarrow> [[x]] | y # ys \<Rightarrow> (x # y) # ys))"

definition pop :: "'a list \<Rightarrow> 'a option" where
  "pop xs = (if xs = [] then None else Some (last xs))"

definition lower_char :: "char \<Rightarrow> char" where
  "lower_char c =
     (case map_of (zip ''ABCDEFGHIJKLMNOPQRSTUVWXYZ'' ''abcdefghijklmnopqrstuvwxyz'') c of
        Some l \<Rightarrow> l
      | None \<Rightarrow> c)"

definition toLowerCase :: "string \<Rightarrow> string" where
  "toLowerCase s = map lower_char s"

definition startsWith :: "string \<Rightarrow> string \<Rightarrow> bool" where
  "startsWith s p = (take (length p) s = p)"

definition hex_digit :: "nat \<Rightarrow> char" where
  "hex_digit n = ''0123456789abcdef'' ! n"

definition toString_hex :: "byte list \<Rightarrow> string" where
  "toString_hex buffer =
     concat (map (\<lambda>b. [hex_digit (unat b div 16), hex_digit (unat b mod 16)]) buffer)"

section \<open>validateImage\<close>

definition validateImage_try :: "filesystem \<Rightarrow> string \<Rightarrow> (bool, 'b) prog" where
  "validateImage_try fs filepath =
     and_then (existsSync fs filepath) (\<lambda>found.
     if \<not> found then returns False else
     and_then (stat fs filepath) (\<lambda>size.
     if size = 0 then returns False else
     if size > 5 * 1024 * 1024 then returns False else
     (let ext = map_option toLowerCase (pop (split_on CHR ''.'' filepath)) in
      if (case ext of None \<Rightarrow> True
          | Some e \<Rightarrow> e = [] \<or> e \<notin> set [''png'', ''jpg'', ''jpeg'', ''gif''])
      then returns False else
      and_then (fs_open fs filepath) (\<lambda>fd.
      and_then (fd_read fs filepath) (\<lambda>buffer.
      and_then (fd_close fs filepath) (\<lambda>closed.
      (let isPNG = startsWith (toString_hex buffer) ''89504e47'';
           isJPEG = startsWith (toString_hex buffer) ''ffd8'';
           isGIF = startsWith (toString_hex buffer) ''47494638''
       in if \<not> isPNG \<and> \<not> isJPEG \<and> \<not> isGIF then returns False else returns True)))))))"

text \<open>The whole body sits in \<open>try { ... } catch (error) { ...; return false; }\<close>.\<close>

definition validateImage :: "filesystem \<Rightarrow> string \<Rightarrow> (bool, 'b) prog" where
  "validateImage fs filepath = try_catch (validateImage_try fs filepath) (\<lambda>error. returns False)"

section \<open>retryOperation\<close>

text \<open>
  What one call of \<open>retryOperation\<close> did: \<open>outcome\<close> is \<open>Inr v\<close> when it returned \<open>v\<close> and
  \<open>Inl lastError\<close> when it threw; \<open>final\<close> is the world afterwards. \<open>attempts\<close> counts the
  invocations of \<open>operation()\<close> and \<open>waits\<close> lists the delays handed to \<open>setTimeout\<close>, oldest
  first; these two are bookkeeping of the model, the code does not compute them.
\<close>

record ('a, 'b) retry_run =
  outcome :: "js_error option + 'a"
  attempts :: nat
  waits :: "nat list"
  final :: "'b world"

text \<open>
  The loop, with its variables \<open>attempt\<close>, \<open>delay\<close> and \<open>lastError\<close>:
  \<^verbatim>\<open>
  for (let attempt = 1; attempt <= maxRetries; attempt++) {
      try { return await operation(); }
      catch (error) {
          lastError = error as Error;
          if (attempt === maxRetries) break;
          await new Promise(resolve => setTimeout(resolve, delay));
          delay *= 2;
      }
  }
  throw lastError;
  \<close>
  \<open>maxRetries\<close> and \<open>delay\<close> are natural numbers (every call site uses the defaults 3 and
  1000), so the doubling is exact.
\<close>

function retry_loop ::
  "('a, 'b) prog \<Rightarrow> nat \<Rightarrow> nat \<Rightarrow> nat \<Rightarrow> js_error option \<Rightarrow> 'b world \<Rightarrow> ('a, 'b) retry_run" where
  "retry_loop operation maxRetries attempt delay lastError w =
     (if attempt \<le> maxRetries then
        (case operation w of
           (Inr v, w') \<Rightarrow> \<lparr>outcome = Inr v, attempts = 1, waits = [], final = w'\<rparr>
         | (Inl error, w') \<Rightarrow>
             if attempt = maxRetries
             then \<lparr>outcome = Inl error, attempts = 1, waits = [], final = w'\<rparr>
             else (let r = retry_loop operation maxRetries (attempt + 1) (delay * 2) error
                             (setTimeout delay w')
                   in r\<lparr>attempts := Suc (attempts r), waits := delay # waits r\<rparr>))
      else \<lparr>outcome = Inl lastError, attempts = 0, waits = [], final = w\<rparr>)"
  by pat_completeness auto
termination
  by (relation "measure (\<lambda>(operation, maxRetries, attempt, delay, lastError, w).
                  Suc maxRetries - attempt)") auto

definition retry_run :: "('a, 'b) prog \<Rightarrow> nat \<Rightarrow> nat \<Rightarrow> 'b world \<Rightarrow> ('a, 'b) retry_run" where
  "retry_run operation maxRetries delay w = retry_loop operation maxRetries 1 delay None w"

definition retryOperation :: "('a, 'b) prog \<Rightarrow> nat \<Rightarrow> nat \<Rightarrow> ('a, 'b) prog" where
  "retryOperation operation maxRetries delay w =
     (let r = retry_run operation maxRetries delay w in (outcome r, final r))"

section \<open>uploadGeneratedImage\<close>

text \<open>
  The backend answers a request from its state, with a reply, the time the call took, and its
  next state. Nothing is assumed about it.
\<close>

type_synonym 'b backend = "'b \<Rightarrow> request \<Rightarrow> (reply \<times> nat) \<times> 'b"

definition call :: "'b backend \<Rightarrow> request \<Rightarrow> 'b world \<Rightarrow> reply \<times> 'b world" where
  "call bk q w =
     (case bk (backend w) q of
        ((r, took), b') \<Rightarrow>
          (r, w\<lparr>backend := b', requests := requests w @ [q], now := now w + took\<rparr>))"

text \<open>\<open>if (result.error) throw result.error; return result;\<close>, keeping \<open>result.data\<close>.\<close>

definition throw_on_error ::
  "reply \<times> 'b world \<Rightarrow> (js_error option + GeneratedImageRecord option) \<times> 'b world" where
  "throw_on_error rw =
     (case rw of (Failure e, w) \<Rightarrow> (Inl (Some e), w) | (Data d, w) \<Rightarrow> (Inr d, w))"

text \<open>The four closures handed to \<open>retryOperation\<close>.\<close>

definition insert_op ::
  "'b backend \<Rightarrow> string \<Rightarrow> string \<Rightarrow> (GeneratedImageRecord option, 'b) prog" where
  "insert_op bk filepath prompt w =
     throw_on_error (call bk
       (Insert ''generated_images''
          \<lparr>n_original_filepath = filepath, n_prompt = prompt, n_status = ''uploading'',
           n_storage_path = [],
           n_metadata =
             (Map.empty(''uploadStarted'' \<mapsto> JTimestamp (now w), ''attempts'' \<mapsto> JNumber 1))
               (''originalFilename'' := map_option JString (pop (split_on CHR ''/'' filepath)))\<rparr>)
       w)"

definition upload_op ::
  "'b backend \<Rightarrow> string \<Rightarrow> byte list \<Rightarrow> (GeneratedImageRecord option, 'b) prog" where
  "upload_op bk storagePath fileBuffer w =
     throw_on_error (call bk
       (Upload ''generated-images'' storagePath fileBuffer ''image/png'' True) w)"

definition complete_op ::
  "'b backend \<Rightarrow> string \<Rightarrow> GeneratedImageRecord \<Rightarrow> string \<Rightarrow> nat \<Rightarrow>
     (GeneratedImageRecord option, 'b) prog" where
  "complete_op bk publicUrl recordData rid uploadStartTime w =
     throw_on_error (call bk
       (Update ''generated_images''
          \<lparr>p_storage_path = Some publicUrl, p_status = Some ''completed'',
           p_error_message = None,
           p_metadata =
             Some ((metadata recordData)
                     (''uploadCompleted'' \<mapsto> JTimestamp (now w),
                      ''processingTime'' \<mapsto> JNumber (now w - uploadStartTime)))\<rparr>
          rid True) w)"

definition error_op ::
  "'b backend \<Rightarrow> string \<Rightarrow> js_error option \<Rightarrow> nat \<Rightarrow> (GeneratedImageRecord option, 'b) prog" where
  "error_op bk rid error failureTime w =
     throw_on_error (call bk
       (Update ''generated_images''
          \<lparr>p_storage_path = None, p_status = Some ''error'',
           p_error_message =
             Some (case error of
                     Some e \<Rightarrow> if is_Error e then err_message e else ''Unknown error''
                   | None \<Rightarrow> ''Unknown error''),
           p_metadata =
             Some [''errorTimestamp'' \<mapsto> JTimestamp (now w),
                   ''processingTime'' \<mapsto> JNumber failureTime,
                   ''errorDetails'' \<mapsto>
                     (case error of
                        Some e \<Rightarrow>
                          if is_Error e
                          then JObject [(''name'', JString (err_name e)),
                                        (''message'', JString (err_message e)),
                                        (''stack'', JStack)]
                          else JString ''Unknown error type''
                      | None \<Rightarrow> JString ''Unknown error type'')]\<rparr>
          rid False) w)"

text \<open>Reading a property of \<open>null\<close> throws a \<open>TypeError\<close>.\<close>

definition TypeError_null :: js_error where
  "TypeError_null = JsError True ''TypeError'' ''Cannot read properties of null''"

definition assign_recordId :: "string \<Rightarrow> (unit, 'b) prog" where
  "assign_recordId rid w = (Inr (), w\<lparr>recordId := Some rid\<rparr>)"

text \<open>
  \<open>supabase.storage.from(bucket).getPublicUrl(path)\<close> is a function of the client library
  that makes no network call. It is the parameter \<open>getPublicUrl\<close>, from the bucket and the
  path to \<open>data.publicUrl\<close>; nothing is assumed about the locator it builds.

  The \<open>try\<close> block. The tests \<open>if (recordError)\<close>, \<open>if (storageError)\<close> and
  \<open>if (updateError)\<close> never fire, since each closure has thrown when \<open>result.error\<close> was
  set; \<open>recordData.id\<close> and \<open>updatedRecord.id\<close> throw when the data is \<open>null\<close>.
\<close>

definition uploadGeneratedImage_try ::
  "(string \<Rightarrow> string \<Rightarrow> string) \<Rightarrow> 'b backend \<Rightarrow> filesystem \<Rightarrow> string \<Rightarrow> string \<Rightarrow> nat \<Rightarrow>
     (GeneratedImageRecord, 'b) prog" where
  "uploadGeneratedImage_try getPublicUrl bk fs filepath prompt uploadStartTime =
     and_then (validateImage fs filepath) (\<lambda>isValid.
     if \<not> isValid
     then throws (Some (new_Error ''Image validation failed - check previous logs for details''))
     else
     and_then (retryOperation (insert_op bk filepath prompt) 3 1000) (\<lambda>recordData.
     case recordData of
       None \<Rightarrow> throws (Some TypeError_null)
     | Some recordData \<Rightarrow>
     and_then (assign_recordId (id_col recordData)) (\<lambda>assigned.
     and_then (readFile fs filepath) (\<lambda>fileBuffer.
     case pop (split_on CHR ''/'' filepath) of
       None \<Rightarrow> throws (Some (new_Error ''Invalid filepath - no filename found''))
     | Some filename \<Rightarrow>
     if filename = []
     then throws (Some (new_Error ''Invalid filepath - no filename found''))
     else
     (let storagePath = ''generated-images/'' @ id_col recordData @ ''_'' @ filename in
      and_then (retryOperation (upload_op bk storagePath fileBuffer) 3 1000) (\<lambda>storageData.
      (let publicUrl = getPublicUrl ''generated-images'' storagePath in
       and_then (retryOperation
                   (complete_op bk publicUrl recordData (id_col recordData) uploadStartTime)
                   3 1000) (\<lambda>updatedRecord.
       case updatedRecord of
         None \<Rightarrow> throws (Some TypeError_null)
       | Some updated \<Rightarrow> returns updated))))))))"

text \<open>
  The \<open>catch\<close> block: \<open>if (recordId)\<close> holds for a string that is not empty; the update of
  the record sits in its own \<open>try\<close>, whose \<open>catch\<close> only logs; then \<open>return null\<close>.
\<close>

definition uploadGeneratedImage_catch ::
  "'b backend \<Rightarrow> nat \<Rightarrow> js_error option \<Rightarrow> (GeneratedImageRecord option, 'b) prog" where
  "uploadGeneratedImage_catch bk uploadStartTime error w =
     (let failureTime = now w - uploadStartTime in
      and_then
        (case recordId w of
           None \<Rightarrow> returns ()
         | Some rid \<Rightarrow>
             if rid = [] then returns ()
             else try_catch
                    (and_then (retryOperation (error_op bk rid error failureTime) 3 1000)
                       (\<lambda>result. returns ()))
                    (\<lambda>updateError. returns ()))
        (\<lambda>handled. returns None) w)"

definition uploadGeneratedImage ::
  "(string \<Rightarrow> string \<Rightarrow> string) \<Rightarrow> 'b backend \<Rightarrow> filesystem \<Rightarrow> string \<Rightarrow> string \<Rightarrow>
     (GeneratedImageRecord option, 'b) prog" where
  "uploadGeneratedImage getPublicUrl bk fs filepath prompt w =
     (let w0 = w\<lparr>recordId := None\<rparr>; uploadStartTime = now w0 in
      try_catch
        (and_then (uploadGeneratedImage_try getPublicUrl bk fs filepath prompt uploadStartTime)
           (\<lambda>updatedRecord. returns (Some updatedRecord)))
        (uploadGeneratedImage_catch bk uploadStartTime) w0)"

section \<open>A reference backend\<close>

text \<open>
  The hosted backend is not part of the repository. Where a claim speaks of the stored record,
  it is read against this store, which does what the client library documents: \<open>insert\<close>
  adds a row under a key the backend assigns and returns it, \<open>update\<close> overwrites exactly the
  columns of the object it is given, \<open>upload\<close> writes the object under its key. \<open>faults\<close>
  schedules the outcome of the coming calls, oldest first: the error to report instead of
  carrying the call out (if any) and the time the call takes; once the schedule is used up,
  calls are carried out in no time.
\<close>

record store =
  faults :: "(js_error option \<times> nat) list"
  rows :: "string \<rightharpoonup> GeneratedImageRecord"
  blobs :: "string \<times> string \<rightharpoonup> byte list \<times> string"
  serial :: nat
  mint :: "nat \<Rightarrow> string \<times> string"

definition apply_patch :: "patch \<Rightarrow> GeneratedImageRecord \<Rightarrow> GeneratedImageRecord" where
  "apply_patch p r =
     r\<lparr>storage_path := (case p_storage_path p of None \<Rightarrow> storage_path r | Some v \<Rightarrow> v),
       status := (case p_status p of None \<Rightarrow> status r | Some v \<Rightarrow> v),
       error_message := (case p_error_message p of None \<Rightarrow> error_message r | Some v \<Rightarrow> Some v),
       metadata := (case p_metadata p of None \<Rightarrow> metadata r | Some v \<Rightarrow> v)\<rparr>"

definition perform :: "request \<Rightarrow> store \<Rightarrow> reply \<times> store" where
  "perform q s =
     (case q of
        Insert table row \<Rightarrow>
          (case mint s (serial s) of
             (i, created) \<Rightarrow>
               if rows s i \<noteq> None
               then (Failure (JsError False ''PostgrestError'' ''duplicate key''), s)
               else (let r = \<lparr>id_col = i, created_at = created,
                               storage_path = n_storage_path row,
                               original_filepath = n_original_filepath row,
                               prompt_col = n_prompt row, status = n_status row,
                               error_message = None, metadata = n_metadata row\<rparr>
                     in (Data (Some r), s\<lparr>rows := (rows s)(i \<mapsto> r), serial := Suc (serial s)\<rparr>)))
      | Update table p i sel \<Rightarrow>
          (case rows s i of
             None \<Rightarrow>
               if sel then (Failure (JsError False ''PostgrestError'' ''no rows returned''), s)
               else (Data None, s)
           | Some r \<Rightarrow>
               (Data (if sel then Some (apply_patch p r) else None),
                s\<lparr>rows := (rows s)(i \<mapsto> apply_patch p r)\<rparr>))
      | Upload bucket path body contentType upsert \<Rightarrow>
          if blobs s (bucket, path) \<noteq> None \<and> \<not> upsert
          then (Failure (JsError True ''StorageApiError'' ''The resource already exists''), s)
          else (Data None, s\<lparr>blobs := (blobs s)((bucket, path) \<mapsto> (body, contentType))\<rparr>))"

definition store_backend :: "store backend" where
  "store_backend s q =
     (case faults s of
        [] \<Rightarrow> (case perform q s of (r, s') \<Rightarrow> ((r, 0), s'))
      | (Some e, took) # rest \<Rightarrow> ((Failure e, took), s\<lparr>faults := rest\<rparr>)
      | (None, took) # rest \<Rightarrow>
          (case perform q (s\<lparr>faults := rest\<rparr>) of (r, s') \<Rightarrow> ((r, took), s')))"

section \<open>Notions used to state the properties\<close>

text \<open>
  An operation that fails exactly \<open>n\<close> times and then succeeds, seen along the run that
  retrying produces: \<open>succeeds_after operation n delay w\<close> is the value and the world of the
  successful invocation, and \<open>None\<close> when one of the first \<open>n\<close> invocations succeeds or the
  next one fails. The operation may depend on the clock, so the worlds in between are those
  left by the pauses.
\<close>

fun succeeds_after ::
  "('a, 'b) prog \<Rightarrow> nat \<Rightarrow> nat \<Rightarrow> 'b world \<Rightarrow> ('a \<times> 'b world) option" where
  "succeeds_after operation 0 delay w =
     (case operation w of (Inr v, w') \<Rightarrow> Some (v, w') | (Inl e, w') \<Rightarrow> None)"
| "succeeds_after operation (Suc n) delay w =
     (case operation w of
        (Inr v, w') \<Rightarrow> None
      | (Inl e, w') \<Rightarrow> succeeds_after operation n (delay * 2) (setTimeout delay w'))"

text \<open>
  The two tests of \<open>validateImage\<close> on the name and on the first bytes, and the files it
  accepts: all the checks of the code in its order, where a filesystem call that throws ends the
  validation with \<open>false\<close>.
\<close>

definition allowed_ext :: "string \<Rightarrow> bool" where
  "allowed_ext filepath =
     (case map_option toLowerCase (pop (split_on CHR ''.'' filepath)) of
        None \<Rightarrow> False
      | Some e \<Rightarrow> e \<in> set [''png'', ''jpg'', ''jpeg'', ''gif''])"

definition has_image_signature :: "byte list \<Rightarrow> bool" where
  "has_image_signature buffer =
     (startsWith (toString_hex buffer) ''89504e47'' \<or> startsWith (toString_hex buffer) ''ffd8''
      \<or> startsWith (toString_hex buffer) ''47494638'')"

definition accepts :: "filesystem \<Rightarrow> string \<Rightarrow> bool" where
  "accepts fs filepath =
     (case fs filepath of
        None \<Rightarrow> False
      | Some f \<Rightarrow>
          (case stat_size f of
             Inl e \<Rightarrow> False
           | Inr n \<Rightarrow>
               n \<noteq> 0 \<and> n \<le> 5 * 1024 * 1024 \<and> allowed_ext filepath \<and> open_r f = None \<and>
               (case read_bytes f of
                  Inl e \<Rightarrow> False
                | Inr bs \<Rightarrow>
                    close_fd f = None \<and> has_image_signature (take 4 (bs @ replicate 4 0)))))"

text \<open>
  Following the spec's words (4.1, check 3, "file extension"): the extension of a path is the
  text after the last dot of its file name, lowercased; a file name without a dot has none.
\<close>

definition spec_extension :: "string \<Rightarrow> string option" where
  "spec_extension filepath =
     (let filename = last (split_on CHR ''/'' filepath)
      in if CHR ''.'' \<in> set filename
         then Some (toLowerCase (last (split_on CHR ''.'' filename)))
         else None)"

text \<open>
  The fully successful path of \<open>uploadGeneratedImage\<close>, stage by stage: validation passes,
  the insert returns a row within its retries, the file is read, the upload returns within its
  retries, and the update returns the updated row within its retries. \<open>successful_run\<close> is that
  row, and \<open>None\<close> as soon as one stage fails.
\<close>

definition successful_run ::
  "(string \<Rightarrow> string \<Rightarrow> string) \<Rightarrow> 'b backend \<Rightarrow> filesystem \<Rightarrow> string \<Rightarrow> string \<Rightarrow> 'b world \<Rightarrow>
     GeneratedImageRecord option" where
  "successful_run getPublicUrl bk fs filepath prompt w =
     (case validateImage fs filepath (w\<lparr>recordId := None\<rparr>) of
        (Inr True, w1) \<Rightarrow>
          (case retryOperation (insert_op bk filepath prompt) 3 1000 w1 of
             (Inr (Some recordData), w2) \<Rightarrow>
               (case readFile fs filepath (w2\<lparr>recordId := Some (id_col recordData)\<rparr>) of
                  (Inr fileBuffer, w3) \<Rightarrow>
                    (case pop (split_on CHR ''/'' filepath) of
                       Some filename \<Rightarrow>
                         if filename = [] then None
                         else
                           (case retryOperation
                                   (upload_op bk
                                      (''generated-images/'' @ id_col recordData @ ''_'' @ filename)
                                      fileBuffer) 3 1000 w3 of
                              (Inr storageData, w4) \<Rightarrow>
                                (case retryOperation
                                        (complete_op bk
                                           (getPublicUrl ''generated-images''
                                              (''generated-images/'' @ id_col recordData @ ''_''
                                                 @ filename))
                                           recordData (id_col recordData) (now w))
                                        3 1000 w4 of
                                   (Inr (Some updated), w5) \<Rightarrow> Some updated
                                 | _ \<Rightarrow> None)
                            | _ \<Rightarrow> None)
                     | None \<Rightarrow> None)
                | _ \<Rightarrow> None)
           | _ \<Rightarrow> None)
      | _ \<Rightarrow> None)"

text \<open>
  A relation between the world before and the world after that every step of a computation
  respects; \<open>keeps f\<close> is the relation that leaves \<open>f\<close> of the world as it was.
\<close>

definition preserves :: "('b world \<Rightarrow> 'b world \<Rightarrow> bool) \<Rightarrow> ('a, 'b) prog \<Rightarrow> bool" where
  "preserves R m = (\<forall>w. R w (snd (m w)))"

definition keeps :: "('b world \<Rightarrow> 'c) \<Rightarrow> 'b world \<Rightarrow> 'b world \<Rightarrow> bool" where
  "keeps f w w' = (f w' = f w)"

text \<open>A request that, if it is an upload, is labelled \<open>image/png\<close> with \<open>upsert\<close> set; and
  a run that has only added such requests.\<close>

definition labelled_png :: "request \<Rightarrow> bool" where
  "labelled_png q =
     (case q of
        Upload bucket path body contentType upsert \<Rightarrow> contentType = ''image/png'' \<and> upsert
      | _ \<Rightarrow> True)"

definition issues_png :: "'b world \<Rightarrow> 'b world \<Rightarrow> bool" where
  "issues_png w w' = (\<exists>qs. requests w' = requests w @ qs \<and> list_all labelled_png qs)"

definition request_kind :: "request \<Rightarrow> string" where
  "request_kind q =
     (case q of
        Insert table row \<Rightarrow> ''insert''
      | Update table p i sel \<Rightarrow> ''update''
      | Upload bucket path body contentType upsert \<Rightarrow> ''upload'')"

text \<open>What a store holds: its records and its objects.\<close>

definition stock ::
  "store world \<Rightarrow>
     (string \<rightharpoonup> GeneratedImageRecord) \<times> (string \<times> string \<rightharpoonup> byte list \<times> string)" where
  "stock w = (rows (backend w), blobs (backend w))"

text \<open>
  A run that gets as far as the upload: the validation has passed, the insert has returned a
  record within its retries and the file has been read. \<open>upload_stage\<close> gives that record,
  the bytes read and the world in which the upload is first attempted.
\<close>

definition upload_stage ::
  "'b backend \<Rightarrow> filesystem \<Rightarrow> string \<Rightarrow> string \<Rightarrow> 'b world \<Rightarrow>
     (GeneratedImageRecord \<times> byte list \<times> 'b world) option" where
  "upload_stage bk fs filepath prompt w =
     (case validateImage fs filepath (w\<lparr>recordId := None\<rparr>) of
        (Inr True, w1) \<Rightarrow>
          (case retryOperation (insert_op bk filepath prompt) 3 1000 w1 of
             (Inr (Some recordData), w2) \<Rightarrow>
               (case readFile fs filepath (w2\<lparr>recordId := Some (id_col recordData)\<rparr>) of
                  (Inr fileBuffer, w3) \<Rightarrow> Some (recordData, fileBuffer, w3)
                | _ \<Rightarrow> None)
           | _ \<Rightarrow> None)
      | _ \<Rightarrow> None)"

text \<open>A program that, from every world, adds the request \<open>q\<close> to the requests made.\<close>

definition always_issues :: "request \<Rightarrow> ('a, 'b) prog \<Rightarrow> bool" where
  "always_issues q m = (\<forall>w. \<exists>qs. requests (snd (m w)) = requests w @ qs \<and> q \<in> set qs)"

text \<open>The record \<open>r'\<close> is \<open>r\<close> marked as failed: status \<open>error\<close>, an error message, and the
  storage path of \<open>r\<close>.\<close>

definition marked_failed :: "GeneratedImageRecord \<Rightarrow> GeneratedImageRecord \<Rightarrow> bool" where
  "marked_failed r r' =
     (status r' = ''error'' \<and> error_message r' \<noteq> None \<and> storage_path r' = storage_path r)"

text \<open>The value stored under the metadata key \<open>k\<close> of the record \<open>i\<close> of a store.\<close>

definition metadata_of :: "store \<Rightarrow> string \<Rightarrow> string \<Rightarrow> json option" where
  "metadata_of s i k = (case rows s i of None \<Rightarrow> None | Some r \<Rightarrow> metadata r k)"

subsection \<open>Example inputs\<close>

text \<open>An operation that counts its invocations in the backend state and fails the first
  \<open>n\<close> of them, and a world in which nothing has happened yet.\<close>

definition flaky_op :: "nat \<Rightarrow> (nat, nat) prog" where
  "flaky_op n w =
     (if backend w < n
      then Inl (Some (JsError True ''Error''
                  (if backend w = 0 then ''first'' else if backend w = 1 then ''second''
                   else ''later'')))
      else Inr (backend w),
      w\<lparr>backend := Suc (backend w)\<rparr>)"

definition blank :: "'b \<Rightarrow> 'b world" where
  "blank b = \<lparr>backend = b, requests = [], fs_calls = [], now = 0, recordId = None\<rparr>"


text \<open>
  Files: a PNG and a JPEG of 2048 bytes each, under names with and without an extension that
  fits. A store with no rows and no objects that assigns the id \<open>r1\<close>, with a schedule of
  faults. A storage error.
\<close>

definition png_header :: "byte list" where
  "png_header = [0x89, 0x50, 0x4E, 0x47, 0x0D, 0x0A, 0x1A, 0x0A]"

definition sunset_png :: "byte list" where
  "sunset_png = png_header @ replicate 2040 0"

definition jpeg_bytes :: "byte list" where
  "jpeg_bytes = [0xFF, 0xD8, 0xFF, 0xE0] @ replicate 2044 0"

definition disk :: filesystem where
  "disk = [''/tmp/sunset.png'' \<mapsto> regular_file sunset_png,
           ''/tmp/cat.png'' \<mapsto> regular_file jpeg_bytes,
           ''/tmp/cat.jpg'' \<mapsto> regular_file jpeg_bytes,
           ''png'' \<mapsto> regular_file sunset_png]"

definition fresh_store :: "(js_error option \<times> nat) list \<Rightarrow> store" where
  "fresh_store fl =
     \<lparr>faults = fl, rows = Map.empty, blobs = Map.empty, serial = 0,
      mint = (\<lambda>n. (''r1'', ''2025-01-01T00:00:00Z''))\<rparr>"

definition boom :: js_error where
  "boom = JsError True ''StorageApiError'' ''Bucket not found''"

text \<open>A locator such as a storage client resolves for a bucket and a path.\<close>

definition project_locator :: "string \<Rightarrow> string \<Rightarrow> string" where
  "project_locator bucket path =
     ''https://proj.supabase.co/storage/v1/object/public/'' @ bucket @ ''/'' @ path"

definition sunset_run ::
  "(js_error option \<times> nat) list \<Rightarrow>
     (js_error option + GeneratedImageRecord option) \<times> store world" where
  "sunset_run fl =
     uploadGeneratedImage project_locator store_backend disk ''/tmp/sunset.png'' ''a sunset''
       (blank (fresh_store fl))"

definition cat_run :: "(js_error option + GeneratedImageRecord option) \<times> store world" where
  "cat_run =
     uploadGeneratedImage project_locator store_backend disk ''/tmp/cat.jpg'' ''a cat''
       (blank (fresh_store []))"

text \<open>A schedule on which the insert succeeds and the three attempts of the upload fail.\<close>

definition upload_outage :: "(js_error option \<times> nat) list" where
  "upload_outage = [(None, 0), (Some boom, 0), (Some boom, 0), (Some boom, 0)]"




section \<open>Properties of the retry executor\<close>

declare retry_loop.simps [simp del]

lemma retry_loop_returns:
  "operation w = (Inr v, w') \<Longrightarrow> attempt \<le> maxRetries \<Longrightarrow>
   retry_loop operation maxRetries attempt delay lastError w =
     \<lparr>outcome = Inr v, attempts = 1, waits = [], final = w'\<rparr>"
  by (subst retry_loop.simps) simp

lemma retry_loop_gives_up:
  "operation w = (Inl e, w') \<Longrightarrow>
   retry_loop operation maxRetries maxRetries delay lastError w =
     \<lparr>outcome = Inl e, attempts = 1, waits = [], final = w'\<rparr>"
  by (subst retry_loop.simps) simp

lemma retry_loop_retries:
  "operation w = (Inl e, w') \<Longrightarrow> attempt < maxRetries \<Longrightarrow>
   retry_loop operation maxRetries attempt delay lastError w =
     (retry_loop operation maxRetries (Suc attempt) (delay * 2) e (setTimeout delay w'))
       \<lparr>attempts := Suc (attempts (retry_loop operation maxRetries (Suc attempt) (delay * 2) e
                                    (setTimeout delay w'))),
        waits := delay # waits (retry_loop operation maxRetries (Suc attempt) (delay * 2) e
                                  (setTimeout delay w'))\<rparr>"
  by (subst retry_loop.simps) (simp add: Let_def)

text \<open>
  C6. With \<open>maxRetries = 3\<close>, an operation whose three attempts fail is invoked exactly three
  times (once in the given world, once after a pause of \<open>delay\<close>, once after a pause of twice
  that), and \<open>retryOperation\<close> then throws the error of the third attempt, in the world the
  third attempt left.
\<close>

theorem retryOperation_exhausts_three_attempts:
  assumes "operation w0 = (Inl e1, w1)"
    and "operation (setTimeout delay w1) = (Inl e2, w2)"
    and "operation (setTimeout (delay * 2) w2) = (Inl e3, w3)"
  shows "retryOperation operation 3 delay w0 = (Inl e3, w3)
         \<and> attempts (retry_run operation 3 delay w0) = 3
         \<and> waits (retry_run operation 3 delay w0) = [delay, delay * 2]"
proof -
  have third: "retry_loop operation 3 3 (delay * 2 * 2) e2 (setTimeout (delay * 2) w2)
     = \<lparr>outcome = Inl e3, attempts = 1, waits = [], final = w3\<rparr>"
    using assms(3) by (simp add: retry_loop_gives_up)
  have second: "retry_loop operation 3 2 (delay * 2) e1 (setTimeout delay w1)
     = \<lparr>outcome = Inl e3, attempts = 2, waits = [delay * 2], final = w3\<rparr>"
    using retry_loop_retries[of operation "setTimeout delay w1" e2 w2 2 3 "delay * 2" e1]
      assms(2) third
    by (simp add: eval_nat_numeral)
  have first: "retry_loop operation 3 1 delay None w0
     = \<lparr>outcome = Inl e3, attempts = 3, waits = [delay, delay * 2], final = w3\<rparr>"
    using retry_loop_retries[of operation w0 e1 w1 1 3 delay None] assms(1) second
    by (simp add: eval_nat_numeral)
  then show ?thesis
    by (simp add: retryOperation_def retry_run_def)
qed

theorem retryOperation_exhausts_three_attempts_witness:
  "retryOperation (flaky_op 5) 3 1000 (blank 0)
     = (Inl (Some (JsError True ''Error'' ''later'')), (blank 0)\<lparr>backend := 3, now := 3000\<rparr>)
   \<and> attempts (retry_run (flaky_op 5) 3 1000 (blank 0)) = 3
   \<and> waits (retry_run (flaky_op 5) 3 1000 (blank 0)) = [1000, 2000]"
  using retryOperation_exhausts_three_attempts[of "flaky_op 5" "blank 0"
      "Some (JsError True ''Error'' ''first'')" "(blank 0)\<lparr>backend := 1\<rparr>" 1000
      "Some (JsError True ''Error'' ''second'')" "(blank 0)\<lparr>backend := 2, now := 1000\<rparr>"
      "Some (JsError True ''Error'' ''later'')" "(blank 0)\<lparr>backend := 3, now := 3000\<rparr>"]
  by (simp add: flaky_op_def blank_def setTimeout_def)

lemma map_upt_shift: "map f [0..<Suc n] = f 0 # map (\<lambda>k. f (Suc k)) [0..<n]"
  by (simp add: upt_conv_Cons map_Suc_upt[symmetric] del: upt_Suc)

lemma sum_list_map_upt: "sum_list (map f [0..<n]) = (\<Sum>k<n. f k)"
  by (simp add: sum_list_sum_nth atLeast0LessThan)

lemma retry_loop_succeeds_after:
  "succeeds_after operation N delay w = Some (v, w') \<Longrightarrow> attempt + N \<le> maxRetries \<Longrightarrow>
   retry_loop operation maxRetries attempt delay lastError w =
     \<lparr>outcome = Inr v, attempts = Suc N, waits = map (\<lambda>k. delay * 2 ^ k) [0..<N], final = w'\<rparr>"
proof (induction N arbitrary: attempt delay lastError w)
  case 0
  then show ?case
    by (auto split: prod.splits sum.splits simp: retry_loop_returns)
next
  case (Suc N)
  from Suc.prems obtain e w1 where op: "operation w = (Inl e, w1)"
    and rest: "succeeds_after operation N (delay * 2) (setTimeout delay w1) = Some (v, w')"
    by (auto split: prod.splits sum.splits)
  from Suc.prems have le: "attempt < maxRetries" "Suc attempt + N \<le> maxRetries"
    by simp_all
  have step: "retry_loop operation maxRetries (Suc attempt) (delay * 2) e (setTimeout delay w1) =
     \<lparr>outcome = Inr v, attempts = Suc N, waits = map (\<lambda>k. delay * 2 * 2 ^ k) [0..<N],
      final = w'\<rparr>"
    by (rule Suc.IH[OF rest le(2)])
  have "map (\<lambda>k. delay * 2 ^ k) [0..<Suc N] = delay # map (\<lambda>k. delay * 2 * 2 ^ k) [0..<N]"
    by (subst map_upt_shift) (simp add: mult.assoc)
  with retry_loop_retries[of operation w e w1 attempt maxRetries delay lastError] op le step
  show ?case
    by (simp del: upt_Suc)
qed

text \<open>
  C7. When the operation fails exactly \<open>N\<close> times and then succeeds with \<open>v\<close>, and
  \<open>maxRetries > N\<close>, \<open>retryOperation\<close> returns \<open>v\<close> after \<open>N + 1\<close> invocations; it has paused
  \<open>delay * 2 ^ k\<close> after the failure number \<open>k\<close> (counted from 0) and not after the success, so
  the pauses add up to the sum of \<open>delay * 2 ^ k\<close> over \<open>k < N\<close>.
\<close>

theorem retryOperation_backoff_until_success:
  assumes "succeeds_after operation N delay w = Some (v, w')" and "N < maxRetries"
  shows "retryOperation operation maxRetries delay w = (Inr v, w')
    \<and> attempts (retry_run operation maxRetries delay w) = Suc N
    \<and> waits (retry_run operation maxRetries delay w) = map (\<lambda>k. delay * 2 ^ k) [0..<N]
    \<and> sum_list (waits (retry_run operation maxRetries delay w)) = (\<Sum>k<N. delay * 2 ^ k)"
proof -
  from assms(2) have "1 + N \<le> maxRetries" by simp
  from retry_loop_succeeds_after[OF assms(1) this]
  show ?thesis
    by (simp add: retryOperation_def retry_run_def sum_list_map_upt del: upt_Suc)
qed

theorem retryOperation_backoff_until_success_witness:
  "retryOperation (flaky_op 2) 5 1000 (blank 0) = (Inr 2, (blank 0)\<lparr>backend := 3, now := 3000\<rparr>)
    \<and> attempts (retry_run (flaky_op 2) 5 1000 (blank 0)) = 3
    \<and> waits (retry_run (flaky_op 2) 5 1000 (blank 0)) = [1000, 2000]
    \<and> sum_list (waits (retry_run (flaky_op 2) 5 1000 (blank 0))) = 3000"
proof -
  have run: "succeeds_after (flaky_op 2) (Suc (Suc 0)) 1000 (blank 0)
               = Some (2, (blank 0)\<lparr>backend := 3, now := 3000\<rparr>)"
    by (simp add: flaky_op_def blank_def setTimeout_def)
  have "Suc (Suc 0) < (5::nat)" by simp
  from retryOperation_backoff_until_success[OF run this] show ?thesis
    by simp
qed

lemma retry_loop_skips:
  "maxRetries < attempt \<Longrightarrow>
   retry_loop operation maxRetries attempt delay lastError w =
     \<lparr>outcome = Inl lastError, attempts = 0, waits = [], final = w\<rparr>"
  by (subst retry_loop.simps) simp

text \<open>With \<open>maxRetries = 3\<close> the loop is at most three invocations, with a pause of \<open>delay\<close>
  and one of twice that in between.\<close>

lemma retryOperation_three:
  "retryOperation operation 3 delay w =
     (case operation w of
        (Inr v, w1) \<Rightarrow> (Inr v, w1)
      | (Inl e1, w1) \<Rightarrow>
          (case operation (setTimeout delay w1) of
             (Inr v, w2) \<Rightarrow> (Inr v, w2)
           | (Inl e2, w2) \<Rightarrow> operation (setTimeout (delay * 2) w2)))"
proof -
  obtain x1 w1 where a1: "operation w = (x1, w1)"
    by (cases "operation w")
  obtain x2 w2 where a2: "operation (setTimeout delay w1) = (x2, w2)"
    by (cases "operation (setTimeout delay w1)")
  obtain x3 w3 where a3: "operation (setTimeout (delay * 2) w2) = (x3, w3)"
    by (cases "operation (setTimeout (delay * 2) w2)")
  have third: "retry_loop operation 3 3 (delay * 2 * 2) e (setTimeout (delay * 2) w2)
                 = \<lparr>outcome = x3, attempts = 1, waits = [], final = w3\<rparr>" for e
    using a3 by (cases x3) (simp_all add: retry_loop_gives_up retry_loop_returns)
  show ?thesis
  proof (cases x1)
    case (Inr v)
    with a1 show ?thesis
      by (simp add: retryOperation_def retry_run_def retry_loop_returns)
  next
    case e1: (Inl e1)
    show ?thesis
    proof (cases x2)
      case (Inr v)
      with a1 a2 e1 show ?thesis
        using retry_loop_retries[of operation w e1 w1 1 3 delay None]
          retry_loop_returns[of operation "setTimeout delay w1" v w2 2 3 "delay * 2" e1]
        by (simp add: retryOperation_def retry_run_def eval_nat_numeral)
    next
      case e2: (Inl e2)
      with a1 a2 a3 e1 third[of e2] show ?thesis
        using retry_loop_retries[of operation w e1 w1 1 3 delay None]
          retry_loop_retries[of operation "setTimeout delay w1" e2 w2 2 3 "delay * 2" e1]
        by (simp add: retryOperation_def retry_run_def eval_nat_numeral)
    qed
  qed
qed

lemma retryOperation_first_try:
  "operation w = (Inr v, w') \<Longrightarrow> retryOperation operation 3 delay w = (Inr v, w')"
  by (simp add: retryOperation_three)

section \<open>Properties of validateImage\<close>

lemmas prog_defs = and_then_def returns_def throws_def try_catch_def
lemmas fs_defs = existsSync_def stat_def fs_open_def fd_read_def fd_close_def readFile_def
lemmas string_defs = pop_def toLowerCase_def lower_char_def startsWith_def toString_hex_def
  hex_digit_def
lemmas example_defs = disk_def regular_file_def sunset_png_def png_header_def jpeg_bytes_def
  fresh_store_def boom_def project_locator_def blank_def

lemma validateImage_try_folded:
  "validateImage_try fs filepath =
     and_then (existsSync fs filepath) (\<lambda>found.
     if \<not> found then returns False else
     and_then (stat fs filepath) (\<lambda>size.
     if size = 0 then returns False else
     if size > 5 * 1024 * 1024 then returns False else
     if \<not> allowed_ext filepath then returns False else
     and_then (fs_open fs filepath) (\<lambda>fd.
     and_then (fd_read fs filepath) (\<lambda>buffer.
     and_then (fd_close fs filepath) (\<lambda>closed.
     returns (has_image_signature buffer))))))"
proof -
  have ext: "(case map_option toLowerCase (pop (split_on CHR ''.'' filepath)) of
               None \<Rightarrow> True
             | Some e \<Rightarrow> e = [] \<or> e \<notin> set [''png'', ''jpg'', ''jpeg'', ''gif''])
             = (\<not> allowed_ext filepath)"
    unfolding allowed_ext_def by (cases "pop (split_on CHR ''.'' filepath)") auto
  have sig: "\<And>buffer. (if \<not> startsWith (toString_hex buffer) ''89504e47''
                 \<and> \<not> startsWith (toString_hex buffer) ''ffd8''
                 \<and> \<not> startsWith (toString_hex buffer) ''47494638''
              then returns False else returns True) = returns (has_image_signature buffer)"
    unfolding has_image_signature_def by auto
  show ?thesis
    unfolding validateImage_try_def Let_def ext sig by (rule refl)
qed

text \<open>\<open>validateImage\<close> never throws, and it returns \<open>true\<close> exactly for the files that pass
  every check of the code; all it does to the world is to call the filesystem.\<close>

lemma validateImage_result: "fst (validateImage fs filepath w) = Inr (accepts fs filepath)"
  by (auto simp: validateImage_def validateImage_try_folded prog_defs fs_defs accepts_def
      split: option.splits sum.splits)

lemma validateImage_world:
  "\<exists>cs. snd (validateImage fs filepath w) = w\<lparr>fs_calls := fs_calls w @ cs\<rparr>"
  by (auto simp: validateImage_def validateImage_try_folded prog_defs fs_defs fs_log_def
      split: option.splits sum.splits)

lemma validateImage_run:
  "\<exists>cs. validateImage fs filepath w
          = (Inr (accepts fs filepath), w\<lparr>fs_calls := fs_calls w @ cs\<rparr>)"
  using validateImage_result[of fs filepath w] validateImage_world[of fs filepath w]
  by (cases "validateImage fs filepath w") auto

subsection \<open>Splitting a path\<close>

lemma split_on_not_Nil: "split_on c s \<noteq> []"
  by (induction s) (auto split: list.splits)

lemma split_on_single: "split_on c s = [y] \<Longrightarrow> y = s"
proof (induction s arbitrary: y)
  case Nil
  then show ?case by simp
next
  case (Cons x s)
  obtain z zs where zs: "split_on c s = z # zs"
    using split_on_not_Nil[of c s] by (cases "split_on c s") auto
  with Cons.prems have "x \<noteq> c" "zs = []" "y = x # z"
    by (auto split: if_splits)
  with zs Cons.IH[of z] show ?case
    by simp
qed

lemma last_split_on_suffix: "\<exists>pre. s = pre @ last (split_on c s)"
proof (induction s)
  case Nil
  show ?case by simp
next
  case (Cons x s)
  then obtain pre where pre: "s = pre @ last (split_on c s)" by blast
  obtain y ys where ys: "split_on c s = y # ys"
    using split_on_not_Nil[of c s] by (cases "split_on c s") auto
  show ?case
  proof (cases "x = c")
    case True
    with pre ys show ?thesis
      by (metis append_Cons last_ConsR list.distinct(1) split_on.simps(2))
  next
    case False
    show ?thesis
    proof (cases ys)
      case Nil
      with ys have "y = s"
        by (simp add: split_on_single)
      with False ys Nil show ?thesis
        by (intro exI[of _ "[]"]) auto
    next
      case (Cons z zs)
      with False ys pre show ?thesis
        by (intro exI[of _ "x # pre"]) auto
    qed
  qed
qed

lemma last_split_on_Nil_iff: "last (split_on c s) = [] \<longleftrightarrow> s = [] \<or> last s = c"
proof (induction s)
  case Nil
  show ?case by simp
next
  case (Cons x s)
  obtain y ys where ys: "split_on c s = y # ys"
    using split_on_not_Nil[of c s] by (cases "split_on c s") auto
  show ?case
  proof (cases "s = []")
    case True
    then show ?thesis by auto
  next
    case False
    show ?thesis
    proof (cases ys)
      case Nil
      with ys have "y = s"
        by (simp add: split_on_single)
      with False Cons ys Nil show ?thesis
        by auto
    next
      case (Cons z zs)
      with False Cons.IH ys show ?thesis
        by auto
    qed
  qed
qed

lemma lower_char_slash: "lower_char c \<in> {CHR ''g'', CHR ''f''} \<Longrightarrow> c \<noteq> CHR ''/''"
  by (auto simp: lower_char_def)

text \<open>A path with an allowed extension has a file name, so the test \<open>if (!filename)\<close> of
  \<open>uploadGeneratedImage\<close> never fires after a successful validation.\<close>

lemma allowed_ext_filename:
  assumes "allowed_ext filepath"
  shows "\<exists>filename. pop (split_on CHR ''/'' filepath) = Some filename \<and> filename \<noteq> []"
proof -
  define e where "e = last (split_on CHR ''.'' filepath)"
  from assms have low: "toLowerCase e \<in> set [''png'', ''jpg'', ''jpeg'', ''gif'']"
    by (simp add: allowed_ext_def pop_def e_def split_on_not_Nil)
  then have ne: "e \<noteq> []"
    by (auto simp: toLowerCase_def)
  from low have "last (toLowerCase e) \<in> {CHR ''g'', CHR ''f''}"
    by auto
  with ne have "lower_char (last e) \<in> {CHR ''g'', CHR ''f''}"
    by (simp add: toLowerCase_def last_map)
  then have ns: "last e \<noteq> CHR ''/''"
    by (rule lower_char_slash)
  obtain pre where "filepath = pre @ e"
    using last_split_on_suffix[of filepath "CHR ''.''"] e_def by blast
  with ne ns have "filepath \<noteq> []" "last filepath \<noteq> CHR ''/''"
    by simp_all
  then have "last (split_on CHR ''/'' filepath) \<noteq> []"
    by (simp add: last_split_on_Nil_iff)
  then show ?thesis
    by (simp add: pop_def split_on_not_Nil)
qed

lemma length_split_on: "length (split_on c s) = Suc (length (filter (\<lambda>x. x = c) s))"
  by (induction s) (auto split: list.splits)

lemma last_split_on_append: "last (split_on c (xs @ c # ys)) = last (split_on c ys)"
proof (induction xs)
  case Nil
  then show ?case by (simp add: split_on_not_Nil)
next
  case (Cons x xs)
  obtain z zs where zs: "split_on c (xs @ c # ys) = z # zs"
    using split_on_not_Nil[of c "xs @ c # ys"] by (cases "split_on c (xs @ c # ys)") auto
  have "length (split_on c (xs @ c # ys)) \<ge> 2"
    by (simp add: length_split_on)
  with zs have "zs \<noteq> []"
    by auto
  with Cons zs show ?case
    by (auto simp: split_on_not_Nil)
qed

lemma allowed_ext_dot_png: "allowed_ext (stem @ ''.png'')"
  using last_split_on_append[of "CHR ''.''" stem "''png''"]
  by (simp add: allowed_ext_def pop_def split_on_not_Nil toLowerCase_def lower_char_def)

lemma jpeg_signature: "has_image_signature (take 4 ((0xFF # 0xD8 # rest) @ replicate 4 0))"
  by (simp add: has_image_signature_def startsWith_def toString_hex_def hex_digit_def)

subsection \<open>The extension of a name without a dot\<close>

text \<open>
  C2. The claim holds except for its third condition. \<open>validateImage\<close> takes for the extension
  what follows the last dot of the whole path, and the whole path when it has no dot
  (\<open>filepath.split('.').pop()\<close>). A file named \<open>png\<close> in the working directory has no
  extension, yet it passes the check commented \<open>Check file extension\<close>: with 2048 bytes of PNG
  content, \<open>validateImage\<close> returns \<open>true\<close> for it.
\<close>

theorem validateImage_accepts_name_without_extension:
  "spec_extension ''png'' = None \<and> disk ''png'' = Some (regular_file sunset_png)
   \<and> length sunset_png = 2048
   \<and> fst (validateImage disk ''png'' (blank ())) = Inr True"
  by (simp add: validateImage_result accepts_def allowed_ext_def has_image_signature_def
      spec_extension_def string_defs example_defs)

subsection \<open>A name and a content that disagree\<close>

text \<open>
  C8, as the claim states it, fails: the file \<open>/tmp/cat.png\<close> exists, has 2048 bytes, a name
  that ends in \<open>.png\<close> and content that starts with the JPEG signature \<open>FF D8\<close>, and
  \<open>validateImage\<close> does not return \<open>false\<close> for it.
\<close>

theorem png_name_jpeg_content_counterexample:
  "disk ''/tmp/cat.png'' = Some (regular_file jpeg_bytes) \<and> length jpeg_bytes = 2048
   \<and> take 2 jpeg_bytes = [0xFF, 0xD8]
   \<and> fst (validateImage disk ''/tmp/cat.png'' (blank ())) \<noteq> Inr False"
  by (simp add: validateImage_result accepts_def allowed_ext_def has_image_signature_def
      string_defs example_defs)

text \<open>
  C8, amended. The name and the content are checked independently of each other: for every
  existing file of more than 0 and at most 5 MiB whose name ends in \<open>.png\<close> and whose first
  bytes are the JPEG signature \<open>FF D8\<close>, \<open>validateImage\<close> returns \<open>true\<close>, provided the file
  can be opened, read and closed.
\<close>

theorem png_name_jpeg_content_accepted:
  assumes "fs (stem @ ''.png'') = Some f" and "stat_size f = Inr n" and "0 < n"
    and "n \<le> 5 * 1024 * 1024"
    and "open_r f = None" and "read_bytes f = Inr (0xFF # 0xD8 # rest)" and "close_fd f = None"
  shows "fst (validateImage fs (stem @ ''.png'') w) = Inr True"
proof -
  have "accepts fs (stem @ ''.png'')"
    unfolding accepts_def using assms allowed_ext_dot_png[of stem] jpeg_signature[of rest]
    by simp
  then show ?thesis
    by (simp add: validateImage_result)
qed

theorem png_name_jpeg_content_accepted_witness:
  "disk (''/tmp/cat'' @ ''.png'') = Some (regular_file jpeg_bytes)
   \<and> stat_size (regular_file jpeg_bytes) = Inr 2048
   \<and> read_bytes (regular_file jpeg_bytes) = Inr [0xFF, 0xD8, 0xFF, 0xE0]
   \<and> fst (validateImage disk (''/tmp/cat'' @ ''.png'') (blank ())) = Inr True"
proof -
  have there: "disk (''/tmp/cat'' @ ''.png'') = Some (regular_file jpeg_bytes)"
    by (simp add: disk_def)
  have size: "stat_size (regular_file jpeg_bytes) = Inr 2048"
    by (simp add: regular_file_def jpeg_bytes_def)
  have bytes: "read_bytes (regular_file jpeg_bytes) = Inr (0xFF # 0xD8 # [0xFF, 0xE0])"
    by (simp add: regular_file_def jpeg_bytes_def)
  have "fst (validateImage disk (''/tmp/cat'' @ ''.png'') (blank ())) = Inr True"
    using png_name_jpeg_content_accepted[of disk "''/tmp/cat''" "regular_file jpeg_bytes" 2048
        "[0xFF, 0xE0]" "blank ()"] there size bytes
    by (simp add: regular_file_def)
  with there size bytes show ?thesis
    by simp
qed

section \<open>Properties of uploadGeneratedImage\<close>

text \<open>The definitions that evaluate a run on the example inputs.\<close>

lemmas op_defs = insert_op_def upload_op_def complete_op_def error_op_def throw_on_error_def
  call_def store_backend_def perform_def apply_patch_def assign_recordId_def
  setTimeout_def
lemmas run_defs = uploadGeneratedImage_def uploadGeneratedImage_try_def
  uploadGeneratedImage_catch_def validateImage_def validateImage_try_def prog_defs fs_defs
  fs_log_def string_defs retryOperation_three op_defs example_defs Let_def new_Error_def


lemma catch_returns_null: "fst (uploadGeneratedImage_catch bk t e w) = Inr None"
  by (auto simp: uploadGeneratedImage_catch_def prog_defs Let_def
      split: option.splits prod.splits sum.splits)

lemma upload_result:
  "fst (uploadGeneratedImage getPublicUrl bk fs filepath prompt w) =
     Inr (case fst (uploadGeneratedImage_try getPublicUrl bk fs filepath prompt (now w)
                      (w\<lparr>recordId := None\<rparr>)) of
            Inl e \<Rightarrow> None | Inr r \<Rightarrow> Some r)"
  by (auto simp: uploadGeneratedImage_def prog_defs Let_def catch_returns_null
      split: prod.splits sum.splits)

lemma try_result:
  "(case fst (uploadGeneratedImage_try getPublicUrl bk fs filepath prompt (now w)
               (w\<lparr>recordId := None\<rparr>)) of
      Inl e \<Rightarrow> None | Inr r \<Rightarrow> Some r) = successful_run getPublicUrl bk fs filepath prompt w"
  by (auto simp: uploadGeneratedImage_try_def successful_run_def prog_defs assign_recordId_def
      Let_def split: prod.splits sum.splits option.splits bool.splits)

text \<open>
  C1. Whatever the file, the prompt, the filesystem and the backend, \<open>uploadGeneratedImage\<close>
  returns and does not throw (its result is never \<open>Inl\<close>). What it returns is the updated
  record when every stage succeeded, and \<open>null\<close> in every other case, that is as soon as the
  validation, the insert, the reading of the file, the upload or the update fails; a failure
  of the update that records the error changes nothing in the result.
\<close>

theorem uploadGeneratedImage_never_raises:
  "fst (uploadGeneratedImage getPublicUrl bk fs filepath prompt w)
     = Inr (successful_run getPublicUrl bk fs filepath prompt w)"
  by (simp add: upload_result try_result)

theorem uploadGeneratedImage_never_raises_witness:
  "fst (sunset_run [])
     = Inr (successful_run project_locator store_backend disk ''/tmp/sunset.png'' ''a sunset''
              (blank (fresh_store [])))
   \<and> map_option status
        (successful_run project_locator store_backend disk ''/tmp/sunset.png'' ''a sunset''
           (blank (fresh_store []))) = Some ''completed''
   \<and> fst (sunset_run [(Some boom, 0), (Some boom, 0), (Some boom, 0)])
       = Inr (successful_run project_locator store_backend disk ''/tmp/sunset.png'' ''a sunset''
                (blank (fresh_store [(Some boom, 0), (Some boom, 0), (Some boom, 0)])))
   \<and> successful_run project_locator store_backend disk ''/tmp/sunset.png'' ''a sunset''
                (blank (fresh_store [(Some boom, 0), (Some boom, 0), (Some boom, 0)])) = None"
proof -
  have ok: "map_option status
              (successful_run project_locator store_backend disk ''/tmp/sunset.png'' ''a sunset''
                 (blank (fresh_store []))) = Some ''completed''"
    by (simp add: successful_run_def run_defs)
  have ko: "successful_run project_locator store_backend disk ''/tmp/sunset.png'' ''a sunset''
                (blank (fresh_store [(Some boom, 0), (Some boom, 0), (Some boom, 0)])) = None"
    by (simp add: successful_run_def run_defs)
  show ?thesis
    using ok ko
      uploadGeneratedImage_never_raises[of project_locator store_backend disk "''/tmp/sunset.png''"
        "''a sunset''" "blank (fresh_store [])"]
      uploadGeneratedImage_never_raises[of project_locator store_backend disk "''/tmp/sunset.png''"
        "''a sunset''" "blank (fresh_store [(Some boom, 0), (Some boom, 0), (Some boom, 0)])"]
    by (simp add: sunset_run_def)
qed


text \<open>
  C3. When the validation fails, \<open>uploadGeneratedImage\<close> returns \<open>null\<close> without a single
  network call: the list of requests, the state of the backend (so its records and its
  objects) and the clock are what they were, and no record id was assigned.
\<close>

theorem invalid_file_makes_no_network_call:
  assumes "fst (validateImage fs filepath w) = Inr False"
  shows "fst (uploadGeneratedImage getPublicUrl bk fs filepath prompt w) = Inr None
       \<and> requests (snd (uploadGeneratedImage getPublicUrl bk fs filepath prompt w)) = requests w
       \<and> backend (snd (uploadGeneratedImage getPublicUrl bk fs filepath prompt w)) = backend w
       \<and> now (snd (uploadGeneratedImage getPublicUrl bk fs filepath prompt w)) = now w
       \<and> recordId (snd (uploadGeneratedImage getPublicUrl bk fs filepath prompt w)) = None"
proof -
  from assms have no: "\<not> accepts fs filepath"
    by (simp add: validateImage_result)
  obtain cs where v: "validateImage fs filepath (w\<lparr>recordId := None\<rparr>)
      = (Inr False, w\<lparr>recordId := None, fs_calls := fs_calls w @ cs\<rparr>)"
    using validateImage_run[of fs filepath "w\<lparr>recordId := None\<rparr>"] no by auto
  show ?thesis
    by (simp add: uploadGeneratedImage_def uploadGeneratedImage_try_def
        uploadGeneratedImage_catch_def prog_defs v Let_def)
qed

theorem invalid_file_makes_no_network_call_witness:
  "fst (validateImage disk ''/tmp/missing.png'' (blank (fresh_store []))) = Inr False
   \<and> fst (uploadGeneratedImage project_locator store_backend disk ''/tmp/missing.png'' ''a sunset''
            (blank (fresh_store []))) = Inr None
   \<and> requests (snd (uploadGeneratedImage project_locator store_backend disk ''/tmp/missing.png''
                      ''a sunset'' (blank (fresh_store [])))) = []
   \<and> backend (snd (uploadGeneratedImage project_locator store_backend disk ''/tmp/missing.png''
                     ''a sunset'' (blank (fresh_store [])))) = fresh_store []"
proof -
  have no: "fst (validateImage disk ''/tmp/missing.png'' (blank (fresh_store []))) = Inr False"
    by (simp add: validateImage_result accepts_def disk_def)
  from invalid_file_makes_no_network_call[OF no, of project_locator store_backend "''a sunset''"] no
  show ?thesis
    by (simp add: blank_def)
qed


subsection \<open>Relations that a run respects\<close>

lemma preserves_returns: "reflp R \<Longrightarrow> preserves R (returns v)"
  by (simp add: preserves_def returns_def reflp_def)

lemma preserves_throws: "reflp R \<Longrightarrow> preserves R (throws e)"
  by (simp add: preserves_def throws_def reflp_def)

lemma preserves_and_then:
  "transp R \<Longrightarrow> preserves R m \<Longrightarrow> (\<And>v. preserves R (f v)) \<Longrightarrow> preserves R (and_then m f)"
  unfolding preserves_def and_then_def
  by (auto split: prod.splits sum.splits) (metis snd_conv transpD)+

lemma preserves_try_catch:
  "transp R \<Longrightarrow> preserves R m \<Longrightarrow> (\<And>e. preserves R (h e)) \<Longrightarrow> preserves R (try_catch m h)"
  unfolding preserves_def try_catch_def
  by (auto split: prod.splits sum.splits) (metis snd_conv transpD)+

lemma preserves_case_option:
  "preserves R a \<Longrightarrow> (\<And>x. preserves R (f x)) \<Longrightarrow> preserves R (case_option a f v)"
  by (cases v) simp_all

lemma preserves_if:
  "preserves R a \<Longrightarrow> preserves R b \<Longrightarrow> preserves R (if c then a else b)"
  by simp

lemma preserves_retry_loop:
  assumes "reflp R" and "transp R" and "preserves R operation"
    and pause: "\<And>d w. R w (setTimeout d w)"
  shows "R w (final (retry_loop operation maxRetries attempt delay lastError w))"
proof (induction "maxRetries - attempt" arbitrary: attempt delay lastError w)
  case 0
  obtain x w' where op: "operation w = (x, w')"
    by (cases "operation w")
  with assms(3) have step: "R w w'"
    by (auto simp: preserves_def dest: spec[of _ w])
  show ?case
  proof (cases "maxRetries < attempt")
    case True
    with assms(1) show ?thesis
      by (simp add: retry_loop_skips reflp_def)
  next
    case False
    with 0 have "attempt = maxRetries" by simp
    with op step show ?thesis
      by (cases x) (simp_all add: retry_loop_gives_up retry_loop_returns)
  qed
next
  case (Suc n)
  then have lt: "attempt < maxRetries" and n: "n = maxRetries - Suc attempt"
    by simp_all
  obtain x w' where op: "operation w = (x, w')"
    by (cases "operation w")
  with assms(3) have step: "R w w'"
    by (auto simp: preserves_def dest: spec[of _ w])
  show ?case
  proof (cases x)
    case (Inr v)
    with op lt step show ?thesis
      by (simp add: retry_loop_returns)
  next
    case (Inl e)
    have "R (setTimeout delay w')
            (final (retry_loop operation maxRetries (Suc attempt) (delay * 2) e
                      (setTimeout delay w')))"
      by (rule Suc.hyps(1)[OF n])
    with step pause[of w' delay] assms(2)
    have "R w (final (retry_loop operation maxRetries (Suc attempt) (delay * 2) e
                        (setTimeout delay w')))"
      by (meson transpD)
    with op Inl lt show ?thesis
      by (simp add: retry_loop_retries[of operation w e w'])
  qed
qed

lemma preserves_retryOperation:
  assumes "reflp R" and "transp R" and "preserves R operation"
    and "\<And>d w. R w (setTimeout d w)"
  shows "preserves R (retryOperation operation maxRetries delay)"
  unfolding preserves_def retryOperation_def retry_run_def Let_def
  using preserves_retry_loop[OF assms] by simp

subsection \<open>The label of an upload\<close>

lemma issues_png_refl: "reflp issues_png"
  by (simp add: reflp_def issues_png_def)

lemma issues_png_trans: "transp issues_png"
  unfolding transp_def issues_png_def
  by (metis append.assoc list_all_append)

lemma issues_png_same: "requests w' = requests w \<Longrightarrow> issues_png w w'"
  by (simp add: issues_png_def)

lemma issues_png_call: "labelled_png q \<Longrightarrow> issues_png w (snd (call bk q w))"
  by (simp add: issues_png_def call_def split: prod.splits)

lemma issues_png_throw_on_error:
  "labelled_png q \<Longrightarrow> issues_png w (snd (throw_on_error (call bk q w)))"
  using issues_png_call[of q w bk]
  by (cases "call bk q w") (auto simp: throw_on_error_def split: reply.splits)

lemma issues_png_ops:
  "preserves issues_png (insert_op bk filepath prompt)"
  "preserves issues_png (upload_op bk storagePath fileBuffer)"
  "preserves issues_png (complete_op bk publicUrl recordData rid t)"
  "preserves issues_png (error_op bk rid error failureTime)"
  unfolding preserves_def insert_op_def upload_op_def complete_op_def error_op_def
  by (simp_all add: issues_png_throw_on_error labelled_png_def)

lemma issues_png_retry:
  "preserves issues_png operation \<Longrightarrow> preserves issues_png (retryOperation operation m d)"
  by (rule preserves_retryOperation[OF issues_png_refl issues_png_trans])
     (simp_all add: issues_png_same setTimeout_def)

lemma issues_png_validateImage: "preserves issues_png (validateImage fs filepath)"
  unfolding preserves_def
proof
  fix w :: "'a world"
  obtain cs where "snd (validateImage fs filepath w) = w\<lparr>fs_calls := fs_calls w @ cs\<rparr>"
    using validateImage_world[of fs filepath w] by blast
  then show "issues_png w (snd (validateImage fs filepath w))"
    by (simp add: issues_png_same)
qed

lemma issues_png_local:
  "preserves issues_png (readFile fs filepath)"
  "preserves issues_png (assign_recordId rid)"
  unfolding preserves_def
  by (simp_all add: readFile_def fs_log_def assign_recordId_def issues_png_same)

lemmas issues_png_intros =
  preserves_and_then[OF issues_png_trans] preserves_try_catch[OF issues_png_trans]
  preserves_returns[OF issues_png_refl] preserves_throws[OF issues_png_refl]
  preserves_case_option preserves_if
  issues_png_retry issues_png_ops issues_png_validateImage issues_png_local

lemma issues_png_try:
  "preserves issues_png (uploadGeneratedImage_try getPublicUrl bk fs filepath prompt t)"
  unfolding uploadGeneratedImage_try_def Let_def
  by (intro issues_png_intros)

lemma issues_png_catch: "preserves issues_png (uploadGeneratedImage_catch bk t e)"
proof -
  have "issues_png w (snd (uploadGeneratedImage_catch bk t e w))" for w
  proof -
    have "preserves issues_png
           (and_then
              (case recordId w of
                 None \<Rightarrow> returns ()
               | Some rid \<Rightarrow>
                   if rid = [] then returns ()
                   else try_catch
                          (and_then (retryOperation (error_op bk rid e (now w - t)) 3 1000)
                             (\<lambda>result. returns ()))
                          (\<lambda>updateError. returns ()))
              (\<lambda>handled. returns None))"
      by (intro issues_png_intros)
    then show ?thesis
      unfolding preserves_def uploadGeneratedImage_catch_def Let_def by (rule spec)
  qed
  then show ?thesis by (simp add: preserves_def)
qed

section \<open>Runs against the reference backend\<close>

subsection \<open>What a run leaves alone\<close>

lemma keeps_refl: "reflp (keeps f)"
  by (simp add: reflp_def keeps_def)

lemma keeps_trans: "transp (keeps f)"
  by (simp add: transp_def keeps_def)

lemma keeps_retry:
  "preserves (keeps f) operation \<Longrightarrow> (\<And>d w. f (setTimeout d w) = f w) \<Longrightarrow>
   preserves (keeps f) (retryOperation operation m d)"
  by (rule preserves_retryOperation[OF keeps_refl keeps_trans]) (simp_all add: keeps_def)

lemma call_recordId: "recordId (snd (call bk q w)) = recordId w"
  by (simp add: call_def split: prod.splits)

lemma throw_on_error_snd: "snd (throw_on_error rw) = snd rw"
  by (auto simp: throw_on_error_def split: prod.splits reply.splits)

lemma upload_op_keeps_recordId:
  "preserves (keeps recordId) (upload_op bk storagePath fileBuffer)"
  by (simp add: preserves_def keeps_def upload_op_def throw_on_error_snd call_recordId)

lemma upload_retry_keeps_recordId:
  "recordId (snd (retryOperation (upload_op bk storagePath fileBuffer) m d w)) = recordId w"
  using keeps_retry[of recordId "upload_op bk storagePath fileBuffer" m d]
    upload_op_keeps_recordId[of bk storagePath fileBuffer]
  by (simp add: preserves_def keeps_def setTimeout_def)

lemma store_backend_upload_rows:
  "rows (snd (store_backend s (Upload bucket path body contentType upsert))) = rows s"
  by (auto simp: store_backend_def perform_def split: list.splits prod.splits option.splits)

lemma upload_op_keeps_rows:
  "preserves (keeps (\<lambda>w. rows (backend w))) (upload_op store_backend storagePath fileBuffer)"
  using store_backend_upload_rows
  by (simp add: preserves_def keeps_def upload_op_def throw_on_error_snd call_def
      split: prod.splits) (metis snd_conv)

lemma upload_retry_keeps_rows:
  "rows (backend (snd (retryOperation (upload_op store_backend storagePath fileBuffer) m d w)))
     = rows (backend w)"
  using keeps_retry[of "\<lambda>w. rows (backend w)" "upload_op store_backend storagePath fileBuffer" m d]
    upload_op_keeps_rows[of storagePath fileBuffer]
  by (simp add: preserves_def keeps_def setTimeout_def)

subsection \<open>The record after a failed upload\<close>

lemma insert_op_store_row:
  assumes "insert_op store_backend filepath prompt w = (Inr (Some rd), w')"
  shows "rows (backend w') (id_col rd) = Some rd \<and> storage_path rd = []
         \<and> status rd = ''uploading'' \<and> error_message rd = None"
  using assms
  by (auto simp: insert_op_def throw_on_error_def call_def store_backend_def perform_def Let_def
      split: list.splits prod.splits option.splits reply.splits if_splits)

lemma insert_retry_store_row:
  assumes "retryOperation (insert_op store_backend filepath prompt) 3 delay w
             = (Inr (Some rd), w')"
  shows "rows (backend w') (id_col rd) = Some rd \<and> storage_path rd = []
         \<and> status rd = ''uploading'' \<and> error_message rd = None"
  using assms insert_op_store_row
  by (auto simp: retryOperation_three split: prod.splits sum.splits)

lemma error_op_store_step:
  assumes "rows (backend w) i = Some r"
    and "error_op store_backend i e failureTime w = (x, w')"
  shows "case x of
           Inl err \<Rightarrow> rows (backend w') = rows (backend w)
         | Inr d \<Rightarrow> (\<exists>r'. rows (backend w') i = Some r' \<and> marked_failed r r')"
  using assms
  by (auto simp: error_op_def throw_on_error_def call_def store_backend_def perform_def Let_def
      apply_patch_def marked_failed_def
      split: list.splits prod.splits option.splits reply.splits if_splits)

lemma error_retry_store:
  assumes row: "rows (backend w) i = Some r"
    and ok: "retryOperation (error_op store_backend i e failureTime) 3 delay w = (Inr d, w')"
  shows "\<exists>r'. rows (backend w') i = Some r' \<and> marked_failed r r'"
proof -
  let ?op = "error_op store_backend i e failureTime"
  obtain x1 w1 where a1: "?op w = (x1, w1)"
    by (cases "?op w")
  obtain x2 w2 where a2: "?op (setTimeout delay w1) = (x2, w2)"
    by (cases "?op (setTimeout delay w1)")
  obtain x3 w3 where a3: "?op (setTimeout (delay * 2) w2) = (x3, w3)"
    by (cases "?op (setTimeout (delay * 2) w2)")
  note s1 = error_op_store_step[OF row a1]
  show ?thesis
  proof (cases x1)
    case (Inr v)
    with ok a1 s1 show ?thesis
      by (simp add: retryOperation_three)
  next
    case e1: (Inl e1)
    with s1 row have row1: "rows (backend (setTimeout delay w1)) i = Some r"
      by (simp add: setTimeout_def)
    note s2 = error_op_store_step[OF row1 a2]
    show ?thesis
    proof (cases x2)
      case (Inr v)
      with ok a1 a2 e1 s2 show ?thesis
        by (simp add: retryOperation_three)
    next
      case e2: (Inl e2)
      with s2 row1 have row2: "rows (backend (setTimeout (delay * 2) w2)) i = Some r"
        by (simp add: setTimeout_def)
      from ok a1 a2 a3 e1 e2 have "x3 = Inr d" "w3 = w'"
        by (simp_all add: retryOperation_three)
      with error_op_store_step[OF row2 a3] show ?thesis
        by simp
    qed
  qed
qed

text \<open>
  C5, as the claim states it, fails: the update that records the error can fail as well. On
  a store whose insert succeeds and whose next six calls fail (three uploads, three updates),
  the run returns \<open>null\<close> and the record \<open>r1\<close> still has status \<open>uploading\<close> and no error
  message.
\<close>

theorem failed_recovery_counterexample:
  "fst (sunset_run [(None, 0), (Some boom, 0), (Some boom, 0), (Some boom, 0),
                    (Some boom, 0), (Some boom, 0), (Some boom, 0)]) = Inr None
   \<and> map request_kind
        (requests (snd (sunset_run [(None, 0), (Some boom, 0), (Some boom, 0), (Some boom, 0),
                                    (Some boom, 0), (Some boom, 0), (Some boom, 0)])))
       = [''insert'', ''upload'', ''upload'', ''upload'', ''update'', ''update'', ''update'']
   \<and> map_option status
        (rows (backend (snd (sunset_run [(None, 0), (Some boom, 0), (Some boom, 0),
                                         (Some boom, 0), (Some boom, 0), (Some boom, 0),
                                         (Some boom, 0)]))) ''r1'') = Some ''uploading''
   \<and> map_option error_message
        (rows (backend (snd (sunset_run [(None, 0), (Some boom, 0), (Some boom, 0),
                                         (Some boom, 0), (Some boom, 0), (Some boom, 0),
                                         (Some boom, 0)]))) ''r1'') = Some None"
  by (simp add: sunset_run_def run_defs request_kind_def)

text \<open>
  C5, amended. Against the reference store: when the validation passes, the insert returns a
  record with an id that is not empty, the file is then read, the upload fails on all three
  attempts, and the update that records the error succeeds within its own three attempts,
  the run returns \<open>null\<close> and the record ends with status \<open>error\<close>, an error message,
  and its storage path still empty.
\<close>

theorem exhausted_upload_marks_record:
  assumes valid: "validateImage fs filepath (w\<lparr>recordId := None\<rparr>) = (Inr True, w1)"
    and created: "retryOperation (insert_op store_backend filepath prompt) 3 1000 w1
                    = (Inr (Some recordData), w2)"
    and assigned: "id_col recordData \<noteq> []"
    and readable: "readFile fs filepath (w2\<lparr>recordId := Some (id_col recordData)\<rparr>)
                    = (Inr fileBuffer, w3)"
    and exhausted: "retryOperation
                      (upload_op store_backend
                         (''generated-images/'' @ id_col recordData @ ''_''
                            @ last (split_on CHR ''/'' filepath)) fileBuffer) 3 1000 w3
                    = (Inl e, w4)"
    and recovered: "retryOperation
                      (error_op store_backend (id_col recordData) e (now w4 - now w)) 3 1000 w4
                    = (Inr d, w5)"
  shows "uploadGeneratedImage getPublicUrl store_backend fs filepath prompt w = (Inr None, w5)
       \<and> (\<exists>r. rows (backend w5) (id_col recordData) = Some r \<and> status r = ''error''
              \<and> error_message r \<noteq> None \<and> storage_path r = [])"
proof -
  from valid have "accepts fs filepath"
    using validateImage_result[of fs filepath "w\<lparr>recordId := None\<rparr>"] by simp
  then have "allowed_ext filepath"
    by (auto simp: accepts_def split: option.splits sum.splits)
  then obtain filename where
    fn: "pop (split_on CHR ''/'' filepath) = Some filename" "filename \<noteq> []"
    using allowed_ext_filename by blast
  then have last: "last (split_on CHR ''/'' filepath) = filename"
    by (simp add: pop_def split: if_splits)
  have row2: "rows (backend w2) (id_col recordData) = Some recordData"
    "storage_path recordData = []"
    using insert_retry_store_row[OF created] by simp_all
  have w3: "w3 = fs_log (ReadFile filepath) (w2\<lparr>recordId := Some (id_col recordData)\<rparr>)"
    using readable by (simp add: readFile_def)
  have "rows (backend w4) = rows (backend w3)"
    using upload_retry_keeps_rows[of _ fileBuffer 3 1000 w3] exhausted by (metis snd_conv)
  with row2 w3 have row4: "rows (backend w4) (id_col recordData) = Some recordData"
    by (simp add: fs_log_def)
  have "recordId w4 = recordId w3"
    using upload_retry_keeps_recordId[of store_backend _ fileBuffer 3 1000 w3] exhausted
    by (metis snd_conv)
  with w3 have rid: "recordId w4 = Some (id_col recordData)"
    by (simp add: fs_log_def)
  have run: "uploadGeneratedImage getPublicUrl store_backend fs filepath prompt w = (Inr None, w5)"
    using valid created readable exhausted[unfolded last] recovered fn assigned rid
    by (simp add: uploadGeneratedImage_def uploadGeneratedImage_try_def
        uploadGeneratedImage_catch_def prog_defs Let_def assign_recordId_def)
  from error_retry_store[OF row4 recovered] row2(2) run show ?thesis
    by (auto simp: marked_failed_def)
qed

theorem exhausted_upload_marks_record_witness:
  "fst (sunset_run upload_outage) = Inr None
   \<and> (\<exists>r. rows (backend (snd (sunset_run upload_outage))) ''r1'' = Some r
          \<and> status r = ''error'' \<and> error_message r \<noteq> None \<and> storage_path r = [])"
proof -
  define w where "w = blank (fresh_store upload_outage)"
  define W1 where "W1 = snd (validateImage disk ''/tmp/sunset.png'' (w\<lparr>recordId := None\<rparr>))"
  define W2 where
    "W2 = snd (retryOperation (insert_op store_backend ''/tmp/sunset.png'' ''a sunset'') 3 1000 W1)"
  have h1: "validateImage disk ''/tmp/sunset.png'' (w\<lparr>recordId := None\<rparr>) = (Inr True, W1)"
    by (simp add: prod_eq_iff W1_def validateImage_result accepts_def allowed_ext_def
        has_image_signature_def string_defs example_defs)
  have "\<exists>rd. fst (retryOperation (insert_op store_backend ''/tmp/sunset.png'' ''a sunset'')
                    3 1000 W1) = Inr (Some rd) \<and> id_col rd = ''r1''"
    by (simp add: W1_def w_def upload_outage_def run_defs)
  then obtain rd where
    h2: "retryOperation (insert_op store_backend ''/tmp/sunset.png'' ''a sunset'') 3 1000 W1
           = (Inr (Some rd), W2)"
    and rd: "id_col rd = ''r1''"
    by (auto simp: prod_eq_iff W2_def)
  define W3 where
    "W3 = snd (readFile disk ''/tmp/sunset.png'' (W2\<lparr>recordId := Some (id_col rd)\<rparr>))"
  have h3: "readFile disk ''/tmp/sunset.png'' (W2\<lparr>recordId := Some (id_col rd)\<rparr>)
              = (Inr sunset_png, W3)"
    by (simp add: prod_eq_iff W3_def readFile_def disk_def regular_file_def)
  define W4 where
    "W4 = snd (retryOperation
                 (upload_op store_backend
                    (''generated-images/'' @ id_col rd @ ''_''
                       @ last (split_on CHR ''/'' ''/tmp/sunset.png'')) sunset_png) 3 1000 W3)"
  have h4: "retryOperation
              (upload_op store_backend
                 (''generated-images/'' @ id_col rd @ ''_''
                    @ last (split_on CHR ''/'' ''/tmp/sunset.png'')) sunset_png) 3 1000 W3
            = (Inl (Some boom), W4)"
    by (simp add: prod_eq_iff W4_def W3_def W2_def W1_def w_def rd upload_outage_def run_defs)
  define W5 where
    "W5 = snd (retryOperation (error_op store_backend (id_col rd) (Some boom) (now W4 - now w))
                 3 1000 W4)"
  have h5: "retryOperation (error_op store_backend (id_col rd) (Some boom) (now W4 - now w))
              3 1000 W4 = (Inr None, W5)"
    by (simp add: prod_eq_iff W5_def W4_def W3_def W2_def W1_def w_def rd upload_outage_def
        run_defs)
  have id: "id_col rd \<noteq> []"
    by (simp add: rd)
  from exhausted_upload_marks_record[OF h1 h2 id h3 h4 h5, of project_locator]
  show ?thesis
    by (simp add: sunset_run_def w_def rd)
qed

text \<open>
  C9. The update on the success path spreads the metadata written at creation
  (\<open>...recordData.metadata\<close>); the update on the error path sends a fresh object with the
  keys \<open>errorTimestamp\<close>, \<open>processingTime\<close> and \<open>errorDetails\<close> only, and an update
  overwrites the column. After a run whose three uploads failed, the record has status
  \<open>error\<close> and a \<open>processingTime\<close> (3000 ms, the two pauses), and \<open>uploadStarted\<close>,
  \<open>originalFilename\<close> and \<open>attempts\<close> are gone; after a successful run they are still there.
\<close>

theorem error_update_drops_creation_metadata:
  "map_option status (rows (backend (snd (sunset_run upload_outage))) ''r1'') = Some ''error''
   \<and> metadata_of (backend (snd (sunset_run upload_outage))) ''r1'' ''processingTime''
       = Some (JNumber 3000)
   \<and> metadata_of (backend (snd (sunset_run upload_outage))) ''r1'' ''uploadStarted'' = None
   \<and> metadata_of (backend (snd (sunset_run upload_outage))) ''r1'' ''originalFilename'' = None
   \<and> metadata_of (backend (snd (sunset_run upload_outage))) ''r1'' ''attempts'' = None
   \<and> map_option status (rows (backend (snd (sunset_run []))) ''r1'') = Some ''completed''
   \<and> metadata_of (backend (snd (sunset_run []))) ''r1'' ''processingTime'' = Some (JNumber 0)
   \<and> metadata_of (backend (snd (sunset_run []))) ''r1'' ''uploadStarted'' = Some (JTimestamp 0)
   \<and> metadata_of (backend (snd (sunset_run []))) ''r1'' ''originalFilename''
       = Some (JString ''sunset.png'')
   \<and> metadata_of (backend (snd (sunset_run []))) ''r1'' ''attempts'' = Some (JNumber 1)"
  by (simp add: sunset_run_def upload_outage_def metadata_of_def run_defs)

section \<open>The store after each stage of a run\<close>

subsection \<open>One call on the store\<close>


lemma upload_op_store_step:
  assumes "upload_op store_backend storagePath fileBuffer w = (x, w')"
  shows "rows (backend w') = rows (backend w)
       \<and> (case x of
             Inl e \<Rightarrow> blobs (backend w') = blobs (backend w)
           | Inr d \<Rightarrow>
               blobs (backend w')
                 = (blobs (backend w))((''generated-images'', storagePath)
                                        \<mapsto> (fileBuffer, ''image/png'')))"
  using assms
  by (auto simp: upload_op_def throw_on_error_def call_def store_backend_def perform_def Let_def
      split: list.splits prod.splits option.splits reply.splits if_splits)


lemma error_op_store_blobs:
  "blobs (backend (snd (error_op store_backend i e failureTime w))) = blobs (backend w)"
  by (auto simp: error_op_def throw_on_error_def call_def store_backend_def perform_def Let_def
      split: list.splits prod.splits option.splits reply.splits if_splits)

lemma complete_op_store_blobs:
  "blobs (backend (snd (complete_op store_backend locator recordData i t w)))
     = blobs (backend w)"
  by (auto simp: complete_op_def throw_on_error_def call_def store_backend_def perform_def
      Let_def split: list.splits prod.splits option.splits reply.splits if_splits)

text \<open>A call of \<open>retryOperation\<close> that returns has made a successful attempt, after failed
  attempts and pauses only.\<close>

lemma retry_three_success:
  assumes fail: "\<And>w e w'. operation w = (Inl e, w') \<Longrightarrow> f w' = f w"
    and pause: "\<And>d w. f (setTimeout d w) = f w"
    and ok: "retryOperation operation 3 delay w = (Inr v, w')"
  shows "\<exists>w0. f w0 = f w \<and> operation w0 = (Inr v, w')"
proof -
  obtain x1 w1 where a1: "operation w = (x1, w1)"
    by (cases "operation w")
  obtain x2 w2 where a2: "operation (setTimeout delay w1) = (x2, w2)"
    by (cases "operation (setTimeout delay w1)")
  show ?thesis
  proof (cases x1)
    case (Inr u)
    with ok a1 show ?thesis
      by (intro exI[of _ w]) (simp add: retryOperation_three)
  next
    case e1: (Inl e1)
    with a1 have f1: "f (setTimeout delay w1) = f w"
      by (simp add: fail pause)
    show ?thesis
    proof (cases x2)
      case (Inr u)
      with ok a1 a2 e1 f1 show ?thesis
        by (intro exI[of _ "setTimeout delay w1"]) (simp add: retryOperation_three)
    next
      case e2: (Inl e2)
      with a2 f1 have "f (setTimeout (delay * 2) w2) = f w"
        by (simp add: fail pause)
      with ok a1 a2 e1 e2 show ?thesis
        by (intro exI[of _ "setTimeout (delay * 2) w2"]) (simp add: retryOperation_three)
    qed
  qed
qed

lemma stock_setTimeout: "stock (setTimeout d w) = stock w"
  by (simp add: stock_def setTimeout_def)


lemma upload_retry_store:
  assumes "retryOperation (upload_op store_backend storagePath fileBuffer) 3 delay w = (Inr d, w')"
  shows "rows (backend w') = rows (backend w)
       \<and> blobs (backend w')
            = (blobs (backend w))((''generated-images'', storagePath)
                                   \<mapsto> (fileBuffer, ''image/png''))"
proof -
  have keep: "stock w2 = stock w1"
    if "upload_op store_backend storagePath fileBuffer w1 = (Inl e, w2)" for w1 e w2
    using upload_op_store_step[OF that] by (simp add: stock_def)
  have "\<exists>w0. stock w0 = stock w
          \<and> upload_op store_backend storagePath fileBuffer w0 = (Inr d, w')"
    using assms
    by (rule retry_three_success[rotated 2]) (simp_all add: keep stock_setTimeout)
  then obtain w0 where "stock w0 = stock w"
    and "upload_op store_backend storagePath fileBuffer w0 = (Inr d, w')"
    by blast
  with upload_op_store_step[of storagePath fileBuffer w0 "Inr d" w'] show ?thesis
    by (auto simp: stock_def)
qed


subsection \<open>A completed upload\<close>




subsection \<open>The upload is issued and the object stored\<close>

lemma upload_stage_SomeD:
  assumes "upload_stage bk fs filepath prompt w = Some (recordData, fileBuffer, w3)"
  shows "\<exists>w1 w2. validateImage fs filepath (w\<lparr>recordId := None\<rparr>) = (Inr True, w1)
           \<and> retryOperation (insert_op bk filepath prompt) 3 1000 w1 = (Inr (Some recordData), w2)
           \<and> readFile fs filepath (w2\<lparr>recordId := Some (id_col recordData)\<rparr>)
               = (Inr fileBuffer, w3)"
  using assms
  by (auto simp: upload_stage_def split: prod.splits sum.splits option.splits bool.splits)

lemma issues_png_extends: "issues_png w w' \<Longrightarrow> \<exists>qs. requests w' = requests w @ qs"
  by (auto simp: issues_png_def)

lemma always_issues_and_then:
  assumes "always_issues q m" and "\<And>v. preserves issues_png (f v)"
  shows "always_issues q (and_then m f)"
  unfolding always_issues_def
proof
  fix w
  obtain x w' where m: "m w = (x, w')"
    by (cases "m w")
  from assms(1) m obtain qs where qs: "requests w' = requests w @ qs" "q \<in> set qs"
    by (auto simp: always_issues_def dest: spec[of _ w])
  show "\<exists>qs. requests (snd (and_then m f w)) = requests w @ qs \<and> q \<in> set qs"
  proof (cases x)
    case (Inl e)
    with m qs show ?thesis
      by (simp add: and_then_def)
  next
    case (Inr v)
    from assms(2)[of v] obtain qs' where "requests (snd (f v w')) = requests w' @ qs'"
      using issues_png_extends[of w' "snd (f v w')"] by (auto simp: preserves_def)
    with m qs Inr show ?thesis
      by (intro exI[of _ "qs @ qs'"]) (simp add: and_then_def)
  qed
qed

lemma always_issues_try_catch:
  assumes "always_issues q m" and "\<And>e. preserves issues_png (h e)"
  shows "always_issues q (try_catch m h)"
  unfolding always_issues_def
proof
  fix w
  obtain x w' where m: "m w = (x, w')"
    by (cases "m w")
  from assms(1) m obtain qs where qs: "requests w' = requests w @ qs" "q \<in> set qs"
    by (auto simp: always_issues_def dest: spec[of _ w])
  show "\<exists>qs. requests (snd (try_catch m h w)) = requests w @ qs \<and> q \<in> set qs"
  proof (cases x)
    case (Inr v)
    with m qs show ?thesis
      by (simp add: try_catch_def)
  next
    case (Inl e)
    from assms(2)[of e] obtain qs' where "requests (snd (h e w')) = requests w' @ qs'"
      using issues_png_extends[of w' "snd (h e w')"] by (auto simp: preserves_def)
    with m qs Inl show ?thesis
      by (intro exI[of _ "qs @ qs'"]) (simp add: try_catch_def)
  qed
qed

lemma upload_op_requests:
  "requests (snd (upload_op bk storagePath fileBuffer w))
     = requests w @ [Upload ''generated-images'' storagePath fileBuffer ''image/png'' True]"
  by (simp add: upload_op_def throw_on_error_snd call_def split: prod.splits)

lemma upload_retry_always_issues:
  "always_issues (Upload ''generated-images'' storagePath fileBuffer ''image/png'' True)
     (retryOperation (upload_op bk storagePath fileBuffer) 3 delay)"
  unfolding always_issues_def
proof
  fix w
  let ?op = "upload_op bk storagePath fileBuffer"
  let ?U = "Upload ''generated-images'' storagePath fileBuffer ''image/png'' True"
  obtain x1 w1 where a1: "?op w = (x1, w1)"
    by (cases "?op w")
  obtain x2 w2 where a2: "?op (setTimeout delay w1) = (x2, w2)"
    by (cases "?op (setTimeout delay w1)")
  obtain x3 w3 where a3: "?op (setTimeout (delay * 2) w2) = (x3, w3)"
    by (cases "?op (setTimeout (delay * 2) w2)")
  have r1: "requests w1 = requests w @ [?U]"
    using upload_op_requests[of bk storagePath fileBuffer w] a1 by simp
  have r2: "requests w2 = requests w @ [?U, ?U]"
    using upload_op_requests[of bk storagePath fileBuffer "setTimeout delay w1"] a2 r1
    by (simp add: setTimeout_def)
  have r3: "requests w3 = requests w @ [?U, ?U, ?U]"
    using upload_op_requests[of bk storagePath fileBuffer "setTimeout (delay * 2) w2"] a3 r2
    by (simp add: setTimeout_def)
  show "\<exists>qs. requests (snd (retryOperation ?op 3 delay w)) = requests w @ qs \<and> ?U \<in> set qs"
  proof (cases x1)
    case (Inr v)
    with a1 r1 show ?thesis
      by (intro exI[of _ "[?U]"]) (simp add: retryOperation_three)
  next
    case e1: (Inl e1)
    show ?thesis
    proof (cases x2)
      case (Inr v)
      with a1 a2 e1 r2 show ?thesis
        by (intro exI[of _ "[?U, ?U]"]) (simp add: retryOperation_three)
    next
      case (Inl e2)
      with a1 a2 a3 e1 r3 show ?thesis
        by (intro exI[of _ "[?U, ?U, ?U]"]) (simp add: retryOperation_three)
    qed
  qed
qed

text \<open>Once the upload stage is reached, the rest of the run is the upload, the update, and
  the \<open>catch\<close> block.\<close>

lemma run_from_upload:
  assumes "upload_stage bk fs filepath prompt w = Some (recordData, fileBuffer, w3)"
  shows "uploadGeneratedImage getPublicUrl bk fs filepath prompt w =
     try_catch
       (and_then
          (and_then
             (retryOperation
                (upload_op bk
                   (''generated-images/'' @ id_col recordData @ ''_''
                      @ last (split_on CHR ''/'' filepath)) fileBuffer) 3 1000)
             (\<lambda>storageData.
                and_then
                  (retryOperation
                     (complete_op bk
                        (getPublicUrl ''generated-images''
                           (''generated-images/'' @ id_col recordData @ ''_''
                              @ last (split_on CHR ''/'' filepath)))
                        recordData (id_col recordData) (now w)) 3 1000)
                  (\<lambda>updatedRecord.
                     case updatedRecord of
                       None \<Rightarrow> throws (Some TypeError_null)
                     | Some updated \<Rightarrow> returns updated)))
          (\<lambda>updatedRecord. returns (Some updatedRecord)))
       (uploadGeneratedImage_catch bk (now w)) w3"
proof -
  from upload_stage_SomeD[OF assms] obtain w1 w2 where
    valid: "validateImage fs filepath (w\<lparr>recordId := None\<rparr>) = (Inr True, w1)"
    and created: "retryOperation (insert_op bk filepath prompt) 3 1000 w1
                    = (Inr (Some recordData), w2)"
    and readable: "readFile fs filepath (w2\<lparr>recordId := Some (id_col recordData)\<rparr>)
                    = (Inr fileBuffer, w3)"
    by blast
  from valid have "accepts fs filepath"
    using validateImage_result[of fs filepath "w\<lparr>recordId := None\<rparr>"] by simp
  then have "allowed_ext filepath"
    by (auto simp: accepts_def split: option.splits sum.splits)
  then obtain filename where
    fn: "pop (split_on CHR ''/'' filepath) = Some filename" "filename \<noteq> []"
    using allowed_ext_filename by blast
  then have last: "last (split_on CHR ''/'' filepath) = filename"
    by (simp add: pop_def split: if_splits)
  let ?key = "''generated-images/'' @ id_col recordData @ ''_'' @ filename"
  obtain x4 w4 where up: "retryOperation (upload_op bk ?key fileBuffer) 3 1000 w3 = (x4, w4)"
    by (cases "retryOperation (upload_op bk ?key fileBuffer) 3 1000 w3")
  obtain x5 w5 where
    co: "retryOperation (complete_op bk (getPublicUrl ''generated-images'' ?key) recordData
           (id_col recordData) (now w)) 3 1000 w4 = (x5, w5)"
    by (cases "retryOperation (complete_op bk (getPublicUrl ''generated-images'' ?key)
           recordData (id_col recordData) (now w)) 3 1000 w4")
  show ?thesis
    unfolding last using valid created readable fn up co
    by (cases x4; cases x5)
      (simp_all add: uploadGeneratedImage_def uploadGeneratedImage_try_def prog_defs Let_def
        assign_recordId_def split: option.splits)
qed

lemma upload_stage_requests:
  assumes "upload_stage bk fs filepath prompt w = Some (recordData, fileBuffer, w3)"
  shows "\<exists>qs. requests w3 = requests w @ qs"
proof -
  from upload_stage_SomeD[OF assms] obtain w1 w2 where
    valid: "validateImage fs filepath (w\<lparr>recordId := None\<rparr>) = (Inr True, w1)"
    and created: "retryOperation (insert_op bk filepath prompt) 3 1000 w1
                    = (Inr (Some recordData), w2)"
    and readable: "readFile fs filepath (w2\<lparr>recordId := Some (id_col recordData)\<rparr>)
                    = (Inr fileBuffer, w3)"
    by blast
  obtain cs where "w1 = w\<lparr>recordId := None, fs_calls := fs_calls w @ cs\<rparr>"
    using validateImage_run[of fs filepath "w\<lparr>recordId := None\<rparr>"] valid by auto
  then have r1: "requests w1 = requests w"
    by simp
  have "issues_png w1 w2"
    using issues_png_retry[OF issues_png_ops(1), of bk filepath prompt 3 1000] created
    by (auto simp: preserves_def dest: spec[of _ w1])
  then obtain qs where "requests w2 = requests w1 @ qs"
    using issues_png_extends by blast
  moreover have "requests w3 = requests w2"
    using readable by (auto simp: readFile_def fs_log_def)
  ultimately show ?thesis
    using r1 by simp
qed

lemmas keeps_intros =
  preserves_and_then[OF keeps_trans] preserves_try_catch[OF keeps_trans]
  preserves_returns[OF keeps_refl] preserves_throws[OF keeps_refl]
  preserves_case_option preserves_if

lemma complete_retry_keeps_blobs:
  "preserves (keeps (\<lambda>w. blobs (backend w)))
     (retryOperation (complete_op store_backend locator recordData i t) m d)"
  by (rule keeps_retry) (simp_all add: preserves_def keeps_def complete_op_store_blobs setTimeout_def)

lemma error_retry_keeps_blobs:
  "preserves (keeps (\<lambda>w. blobs (backend w)))
     (retryOperation (error_op store_backend i e failureTime) m d)"
  by (rule keeps_retry) (simp_all add: preserves_def keeps_def error_op_store_blobs setTimeout_def)

lemma catch_keeps_blobs:
  "preserves (keeps (\<lambda>w. blobs (backend w))) (uploadGeneratedImage_catch store_backend t e)"
proof -
  have "keeps (\<lambda>w. blobs (backend w)) w (snd (uploadGeneratedImage_catch store_backend t e w))"
    for w
  proof -
    have "preserves (keeps (\<lambda>w. blobs (backend w)))
           (and_then
              (case recordId w of
                 None \<Rightarrow> returns ()
               | Some rid \<Rightarrow>
                   if rid = [] then returns ()
                   else try_catch
                          (and_then
                             (retryOperation (error_op store_backend rid e (now w - t)) 3 1000)
                             (\<lambda>result. returns ()))
                          (\<lambda>updateError. returns ()))
              (\<lambda>handled. returns None))"
      by (intro keeps_intros error_retry_keeps_blobs)
    then show ?thesis
      unfolding preserves_def uploadGeneratedImage_catch_def Let_def by (rule spec)
  qed
  then show ?thesis by (simp add: preserves_def)
qed

text \<open>After an upload that has returned, the object stays as the upload left it.\<close>

lemma stored_after_upload:
  assumes stage: "upload_stage store_backend fs filepath prompt w = Some (recordData, fileBuffer, w3)"
    and uploaded: "retryOperation
                     (upload_op store_backend
                        (''generated-images/'' @ id_col recordData @ ''_''
                           @ last (split_on CHR ''/'' filepath)) fileBuffer) 3 1000 w3
                   = (Inr storageData, w4)"
  shows "blobs (backend (snd (uploadGeneratedImage getPublicUrl store_backend fs filepath prompt w)))
           (''generated-images'',
            ''generated-images/'' @ id_col recordData @ ''_'' @ last (split_on CHR ''/'' filepath))
         = Some (fileBuffer, ''image/png'')"
proof -
  let ?key = "''generated-images/'' @ id_col recordData @ ''_'' @ last (split_on CHR ''/'' filepath)"
  let ?rest = "try_catch
       (and_then
          (and_then
             (retryOperation
                (complete_op store_backend (getPublicUrl ''generated-images'' ?key)
                   recordData (id_col recordData) (now w)) 3 1000)
             (\<lambda>updatedRecord.
                case updatedRecord of
                  None \<Rightarrow> throws (Some TypeError_null)
                | Some updated \<Rightarrow> returns updated))
          (\<lambda>updatedRecord. returns (Some updatedRecord)))
       (uploadGeneratedImage_catch store_backend (now w))"
  have run: "uploadGeneratedImage getPublicUrl store_backend fs filepath prompt w = ?rest w4"
    unfolding run_from_upload[OF stage] using uploaded
    by (simp add: try_catch_def and_then_def)
  have "preserves (keeps (\<lambda>w. blobs (backend w))) ?rest"
    by (intro keeps_intros complete_retry_keeps_blobs catch_keeps_blobs)
  then have "blobs (backend (snd (?rest w4))) = blobs (backend w4)"
    by (simp add: preserves_def keeps_def)
  moreover have "blobs (backend w4)
      = (blobs (backend w3))((''generated-images'', ?key) \<mapsto> (fileBuffer, ''image/png''))"
    using upload_retry_store[OF uploaded] by simp
  ultimately show ?thesis
    unfolding run by simp
qed

lemma issued_after_stage:
  assumes stage: "upload_stage bk fs filepath prompt w = Some (recordData, fileBuffer, w3)"
    and qs: "requests (snd (uploadGeneratedImage getPublicUrl bk fs filepath prompt w))
               = requests w @ qs"
  shows "Upload ''generated-images''
           (''generated-images/'' @ id_col recordData @ ''_'' @ last (split_on CHR ''/'' filepath))
           fileBuffer ''image/png'' True \<in> set qs"
proof -
  let ?key = "''generated-images/'' @ id_col recordData @ ''_'' @ last (split_on CHR ''/'' filepath)"
  let ?U = "Upload ''generated-images'' ?key fileBuffer ''image/png'' True"
  let ?rest = "try_catch
       (and_then
          (and_then
             (retryOperation (upload_op bk ?key fileBuffer) 3 1000)
             (\<lambda>storageData.
                and_then
                  (retryOperation
                     (complete_op bk (getPublicUrl ''generated-images'' ?key)
                        recordData (id_col recordData) (now w)) 3 1000)
                  (\<lambda>updatedRecord.
                     case updatedRecord of
                       None \<Rightarrow> throws (Some TypeError_null)
                     | Some updated \<Rightarrow> returns updated)))
          (\<lambda>updatedRecord. returns (Some updatedRecord)))
       (uploadGeneratedImage_catch bk (now w))"
  have "always_issues ?U ?rest"
    by (intro always_issues_try_catch always_issues_and_then upload_retry_always_issues
        issues_png_intros issues_png_catch)
  then obtain qs2 where
    qs2: "requests (snd (?rest w3)) = requests w3 @ qs2" "?U \<in> set qs2"
    by (auto simp: always_issues_def dest: spec[of _ w3])
  from upload_stage_requests[OF stage] obtain qs1 where "requests w3 = requests w @ qs1"
    by blast
  with qs2 qs show ?thesis
    unfolding run_from_upload[OF stage] by auto
qed

text \<open>
  C10. Whatever the backend and the file: every upload that a run of \<open>uploadGeneratedImage\<close>
  issues, at whatever attempt, carries the content type \<open>image/png\<close> and \<open>upsert: true\<close>; a
  run that gets as far as the upload (the file validated, the record created, the bytes
  read) does issue the upload of these bytes under the key
  \<open>generated-images/<id>_<filename>\<close> with this label; and on the reference store, once the
  upload has returned, the object stored under that key at the end of the run is these
  bytes, labelled \<open>image/png\<close>.
\<close>

theorem every_upload_is_labelled_png:
  "(\<exists>qs. requests (snd (uploadGeneratedImage getPublicUrl bk fs filepath prompt w))
            = requests w @ qs
        \<and> (\<forall>q\<in>set qs. \<forall>bucket path body contentType upsert.
              q = Upload bucket path body contentType upsert \<longrightarrow>
              contentType = ''image/png'' \<and> upsert)
        \<and> (\<forall>recordData fileBuffer w3.
              upload_stage bk fs filepath prompt w = Some (recordData, fileBuffer, w3) \<longrightarrow>
              Upload ''generated-images''
                (''generated-images/'' @ id_col recordData @ ''_''
                   @ last (split_on CHR ''/'' filepath))
                fileBuffer ''image/png'' True \<in> set qs))
   \<and> (\<forall>sw recordData fileBuffer sw3 storageData sw4.
         upload_stage store_backend fs filepath prompt sw = Some (recordData, fileBuffer, sw3)
         \<and> retryOperation
             (upload_op store_backend
                (''generated-images/'' @ id_col recordData @ ''_''
                   @ last (split_on CHR ''/'' filepath)) fileBuffer) 3 1000 sw3
           = (Inr storageData, sw4) \<longrightarrow>
         blobs (backend (snd (uploadGeneratedImage getPublicUrl store_backend fs filepath
                                prompt sw)))
           (''generated-images'',
            ''generated-images/'' @ id_col recordData @ ''_''
              @ last (split_on CHR ''/'' filepath))
         = Some (fileBuffer, ''image/png''))"
proof (intro conjI)
  have "preserves issues_png
          (try_catch
             (and_then (uploadGeneratedImage_try getPublicUrl bk fs filepath prompt (now w))
                (\<lambda>updatedRecord. returns (Some updatedRecord)))
             (uploadGeneratedImage_catch bk (now w)))"
    by (intro issues_png_intros issues_png_try issues_png_catch)
  then have "issues_png (w\<lparr>recordId := None\<rparr>)
               (snd (uploadGeneratedImage getPublicUrl bk fs filepath prompt w))"
    by (simp add: preserves_def uploadGeneratedImage_def Let_def)
  then obtain qs where
    qs: "requests (snd (uploadGeneratedImage getPublicUrl bk fs filepath prompt w))
           = requests w @ qs"
    and png: "list_all labelled_png qs"
    by (auto simp: issues_png_def)
  have "contentType = ''image/png'' \<and> upsert"
    if "Upload bucket path body contentType upsert \<in> set qs"
    for bucket path body contentType upsert
    using png that by (force simp: list_all_iff labelled_png_def)
  moreover have "Upload ''generated-images''
                (''generated-images/'' @ id_col recordData @ ''_''
                   @ last (split_on CHR ''/'' filepath))
                fileBuffer ''image/png'' True \<in> set qs"
    if "upload_stage bk fs filepath prompt w = Some (recordData, fileBuffer, w3)"
    for recordData fileBuffer w3
    using issued_after_stage[OF that qs] .
  ultimately show "\<exists>qs. requests (snd (uploadGeneratedImage getPublicUrl bk fs filepath prompt w))
            = requests w @ qs
        \<and> (\<forall>q\<in>set qs. \<forall>bucket path body contentType upsert.
              q = Upload bucket path body contentType upsert \<longrightarrow>
              contentType = ''image/png'' \<and> upsert)
        \<and> (\<forall>recordData fileBuffer w3.
              upload_stage bk fs filepath prompt w = Some (recordData, fileBuffer, w3) \<longrightarrow>
              Upload ''generated-images''
                (''generated-images/'' @ id_col recordData @ ''_''
                   @ last (split_on CHR ''/'' filepath))
                fileBuffer ''image/png'' True \<in> set qs)"
    using qs by blast
next
  show "\<forall>sw recordData fileBuffer sw3 storageData sw4.
         upload_stage store_backend fs filepath prompt sw = Some (recordData, fileBuffer, sw3)
         \<and> retryOperation
             (upload_op store_backend
                (''generated-images/'' @ id_col recordData @ ''_''
                   @ last (split_on CHR ''/'' filepath)) fileBuffer) 3 1000 sw3
           = (Inr storageData, sw4) \<longrightarrow>
         blobs (backend (snd (uploadGeneratedImage getPublicUrl store_backend fs filepath
                                prompt sw)))
           (''generated-images'',
            ''generated-images/'' @ id_col recordData @ ''_''
              @ last (split_on CHR ''/'' filepath))
         = Some (fileBuffer, ''image/png'')"
    using stored_after_upload by blast
qed

theorem every_upload_is_labelled_png_witness:
  "Upload ''generated-images'' ''generated-images/r1_cat.jpg'' jpeg_bytes ''image/png'' True
     \<in> set (requests (snd cat_run))
   \<and> map request_kind (requests (snd cat_run)) = [''insert'', ''upload'', ''update'']
   \<and> blobs (backend (snd cat_run)) (''generated-images'', ''generated-images/r1_cat.jpg'')
       = Some (jpeg_bytes, ''image/png'')"
proof -
  define w where "w = blank (fresh_store [])"
  define W1 where "W1 = snd (validateImage disk ''/tmp/cat.jpg'' (w\<lparr>recordId := None\<rparr>))"
  define W2 where
    "W2 = snd (retryOperation (insert_op store_backend ''/tmp/cat.jpg'' ''a cat'') 3 1000 W1)"
  have h1: "validateImage disk ''/tmp/cat.jpg'' (w\<lparr>recordId := None\<rparr>) = (Inr True, W1)"
    by (simp add: prod_eq_iff W1_def validateImage_result accepts_def allowed_ext_def
        has_image_signature_def string_defs example_defs)
  have "\<exists>rd. fst (retryOperation (insert_op store_backend ''/tmp/cat.jpg'' ''a cat'')
                    3 1000 W1) = Inr (Some rd) \<and> id_col rd = ''r1''"
    by (simp add: W1_def w_def run_defs)
  then obtain rd where
    h2: "retryOperation (insert_op store_backend ''/tmp/cat.jpg'' ''a cat'') 3 1000 W1
           = (Inr (Some rd), W2)"
    and rd: "id_col rd = ''r1''"
    by (auto simp: prod_eq_iff W2_def)
  define W3 where
    "W3 = snd (readFile disk ''/tmp/cat.jpg'' (W2\<lparr>recordId := Some (id_col rd)\<rparr>))"
  have h3: "readFile disk ''/tmp/cat.jpg'' (W2\<lparr>recordId := Some (id_col rd)\<rparr>)
              = (Inr jpeg_bytes, W3)"
    by (simp add: prod_eq_iff W3_def readFile_def disk_def regular_file_def)
  have stage: "upload_stage store_backend disk ''/tmp/cat.jpg'' ''a cat'' w
                 = Some (rd, jpeg_bytes, W3)"
    by (simp add: upload_stage_def h1 h2 h3)
  define W4 where
    "W4 = snd (retryOperation
                 (upload_op store_backend
                    (''generated-images/'' @ id_col rd @ ''_''
                       @ last (split_on CHR ''/'' ''/tmp/cat.jpg'')) jpeg_bytes) 3 1000 W3)"
  have h4: "retryOperation
              (upload_op store_backend
                 (''generated-images/'' @ id_col rd @ ''_''
                    @ last (split_on CHR ''/'' ''/tmp/cat.jpg'')) jpeg_bytes) 3 1000 W3
            = (Inr None, W4)"
    by (simp add: prod_eq_iff W4_def W3_def W2_def W1_def w_def rd run_defs)
  have key: "''generated-images/'' @ id_col rd @ ''_'' @ last (split_on CHR ''/'' ''/tmp/cat.jpg'')
               = ''generated-images/r1_cat.jpg''"
    by (simp add: rd)
  have start: "requests w = []"
    by (simp add: w_def blank_def)
  note run = every_upload_is_labelled_png[of project_locator store_backend disk
      "''/tmp/cat.jpg''" "''a cat''" w]
  from run[THEN conjunct1] obtain qs where
    qs: "requests (snd (uploadGeneratedImage project_locator store_backend disk ''/tmp/cat.jpg''
                          ''a cat'' w)) = requests w @ qs"
    and png: "\<forall>q\<in>set qs. \<forall>bucket path body contentType upsert.
                q = Upload bucket path body contentType upsert \<longrightarrow>
                contentType = ''image/png'' \<and> upsert"
    and issued: "\<forall>recordData fileBuffer w3.
              upload_stage store_backend disk ''/tmp/cat.jpg'' ''a cat'' w
                = Some (recordData, fileBuffer, w3) \<longrightarrow>
              Upload ''generated-images''
                (''generated-images/'' @ id_col recordData @ ''_''
                   @ last (split_on CHR ''/'' ''/tmp/cat.jpg''))
                fileBuffer ''image/png'' True \<in> set qs"
    by (elim exE conjE)
  note a = issued[rule_format, OF stage, unfolded key]
  note b = run[THEN conjunct2, rule_format, OF conjI[OF stage h4], unfolded key]
  from qs have eq: "requests (snd cat_run) = qs"
    unfolding cat_run_def w_def[symmetric] start by simp
  have stored: "blobs (backend (snd cat_run)) (''generated-images'', ''generated-images/r1_cat.jpg'')
                  = Some (jpeg_bytes, ''image/png'')"
    using b unfolding cat_run_def w_def .
  have kinds: "map request_kind (requests (snd cat_run)) = [''insert'', ''upload'', ''update'']"
    by (simp add: cat_run_def run_defs request_kind_def)
  show ?thesis
    unfolding eq using a kinds[unfolded eq] stored by (intro conjI) assumption+
qed

end
